theory Spec2Isabelle
  imports Complex_Main "HOL-Library.Log_Nat"
begin

section \<open>JavaScript numbers\<close>

text \<open>
  The score is computed with JavaScript numbers, which are IEEE 754 binary64 values.
  A finite number is modelled by the rational it denotes, and an arithmetic operation
  by the exact operation followed by rounding to 53 significant bits, ties to even.
  The exponent is unbounded here: overflow to Infinity and subnormal numbers are not
  modelled. The countdown is an integer between 0 and 180, so every value of the
  score computation lies between 0 and 19, far away from both ends of the exponent range.
\<close>

definition ilog2 :: "rat \<Rightarrow> int" where
  \<comment> \<open>the binary exponent of a positive rational: the \<open>k\<close> with \<open>2^k \<le> x < 2^(k+1)\<close>\<close>
  "ilog2 x = (let (p, q) = quotient_of x; k = bitlen p - bitlen q
              in if 2 powi k \<le> x then k else k - 1)"

definition roundTiesToEven :: "rat \<Rightarrow> int" where
  "roundTiesToEven x = (let f = \<lfloor>x\<rfloor>; d = x - of_int f
     in if d < 1 / 2 then f else if 1 / 2 < d then f + 1 else if even f then f else f + 1)"

definition toDouble :: "rat \<Rightarrow> rat" where
  "toDouble x = (if x = 0 then 0 else
     let e = ilog2 \<bar>x\<bar> - 52 in of_int (roundTiesToEven (x / 2 powi e)) * 2 powi e)"

definition dmul :: "rat \<Rightarrow> rat \<Rightarrow> rat" where
  "dmul a b = toDouble (a * b)"

definition dadd :: "rat \<Rightarrow> rat \<Rightarrow> rat" where
  "dadd a b = toDouble (a + b)"

definition d0_1 :: rat where
  \<comment> \<open>the literal \<open>0.1\<close>\<close>
  "d0_1 = toDouble (1 / 10)"

definition d1_0 :: rat where
  \<comment> \<open>the literal \<open>1.0\<close>\<close>
  "d1_0 = toDouble 1"

definition d0_0 :: rat where
  \<comment> \<open>the literal \<open>0.0\<close>\<close>
  "d0_0 = toDouble 0"


section \<open>Data of the game component\<close>

definition WORD_LENGTH :: nat where
  "WORD_LENGTH = 5"

definition MAX_ATTEMPTS :: nat where
  "MAX_ATTEMPTS = 6"

definition DEFAULT_TIMER :: int where
  "DEFAULT_TIMER = 180"

datatype status = Idle | Active | Won | Lost

datatype label = Correct | Present | Absent

text \<open>
  An entry of \<open>attempts\<close>. Its \<open>timestamp\<close> and \<open>elapsedSeconds\<close> are read from the
  wall clock and are left out, as is \<open>time_taken\<close> below.
\<close>

record attempt =
  guess :: string
  feedback :: "label list"

text \<open>An entry of \<open>hints\<close>. The letter is a JavaScript string, appended to the guess as it is.\<close>

record hint =
  position :: nat
  letter :: string

text \<open>
  The \<open>gameState\<close> object: the response of the start request, to which a winning guess
  adds the score fields.
\<close>

record game =
  secret_word :: string
  total_score :: "rat option"
  time_bonus :: "rat option"
  base_score :: "rat option"
  attempts_used :: "nat option"
  time_remaining :: "int option"
  is_winning :: bool

type_synonym meaning = string

text \<open>The requests sent to the server, in the order in which they are sent.\<close>

datatype request =
    StartGameReq int
  | GuessReq string string
  | CompleteGameReq string status nat rat
  | HintReq string "nat list"
  | WordMeaningReq string
  | DeductCoinsForMeaningReq

text \<open>
  The state of the component: its \<open>useState\<close> cells, the interval held by \<open>timerRef\<close>
  (\<open>timerRef\<close> is true when an interval is running), the timeouts that winning guesses
  have scheduled to set the status and that have not fired yet (\<open>wonTimeouts\<close> counts
  them), and the requests sent so far. The cells that only drive the display are left out (the timeline,
  the help, settings and profile panels, dark mode, sound and vibration), and so are the
  sounds that the handlers play and the timeouts that close the coin modal.
\<close>

record session =
  gameState :: "game option"
  currentGuess :: string
  attempts :: "attempt list"
  gameStatus :: status
  timeRemaining :: int
  error :: string
  loading :: bool
  coins :: int
  hints :: "hint list"
  showCoinModal :: bool
  wordMeaning :: "meaning option"
  meaningClueUsed :: bool
  showMeaningModal :: bool
  timerRef :: bool
  wonTimeouts :: nat
  requests :: "request list"

text \<open>The responses of the server. A failed request is \<open>Inl\<close> of the error's message.\<close>

record guess_response =
  resp_guess :: string
  resp_feedback :: "label list"
  is_correct :: bool

record hint_response =
  hint_position :: nat
  hint_letter :: string
  remaining_coins :: int

definition initial :: session where
  "initial = \<lparr>gameState = None, currentGuess = [], attempts = [], gameStatus = Idle,
     timeRemaining = DEFAULT_TIMER, error = [], loading = False, coins = 100, hints = [],
     showCoinModal = False, wordMeaning = None, meaningClueUsed = False,
     showMeaningModal = False, timerRef = False, wonTimeouts = 0, requests = []\<rparr>"


section \<open>Strings\<close>

definition isUpper :: "char \<Rightarrow> bool" where
  "isUpper c = (65 \<le> (of_char c :: nat) \<and> (of_char c :: nat) \<le> 90)"

definition isLower :: "char \<Rightarrow> bool" where
  "isLower c = (97 \<le> (of_char c :: nat) \<and> (of_char c :: nat) \<le> 122)"

definition lettersOnly :: "string \<Rightarrow> bool" where
  \<comment> \<open>\<open>/^[A-Za-z]+$/.test\<close>\<close>
  "lettersOnly w = (w \<noteq> [] \<and> list_all (\<lambda>c. isUpper c \<or> isLower c) w)"

definition toUpperCase :: "string \<Rightarrow> string" where
  "toUpperCase w = map (\<lambda>c. if isLower c then char_of (of_char c - (32 :: nat)) else c) w"

definition charAt :: "string \<Rightarrow> nat \<Rightarrow> string" where
  \<comment> \<open>\<open>w[k] || ''\<close>\<close>
  "charAt w k = (if k < length w then [w ! k] else [])"

fun includes_str :: "string \<Rightarrow> string \<Rightarrow> bool" where
  \<comment> \<open>\<open>w.includes(p)\<close>\<close>
  "includes_str [] p = (p = [])"
| "includes_str (c # cs) p = (take (length p) (c # cs) = p \<or> includes_str cs p)"

definition orElse :: "string \<Rightarrow> string \<Rightarrow> string" where
  \<comment> \<open>\<open>msg || dflt\<close>\<close>
  "orElse msg dflt = (if msg = [] then dflt else msg)"


section \<open>The handlers\<close>

definition secretOf :: "session \<Rightarrow> string option" where
  \<comment> \<open>\<open>gameState?.secret_word\<close>, \<open>None\<close> when it is falsy\<close>
  "secretOf s = (case gameState s of None \<Rightarrow> None
     | Some g \<Rightarrow> if secret_word g = [] then None else Some (secret_word g))"

definition handleTimeUp :: "session \<Rightarrow> session" where
  "handleTimeUp s =
     (let s1 = s\<lparr>gameStatus := Lost, error := ''Time is up!''\<rparr>
      in case secretOf s of
           None \<Rightarrow> s1
         | Some w \<Rightarrow> s1\<lparr>requests := requests s @ [CompleteGameReq w Lost (length (attempts s)) d0_0]\<rparr>)"

definition tick :: "session \<Rightarrow> session" where
  \<comment> \<open>the interval's callback; it runs only while the interval exists\<close>
  "tick s =
     (if timerRef s
      then if timeRemaining s \<le> 1 then (handleTimeUp s)\<lparr>timeRemaining := 0\<rparr>
           else s\<lparr>timeRemaining := timeRemaining s - 1\<rparr>
      else s)"

definition timerEffect :: "session \<Rightarrow> session" where
  \<comment> \<open>the timer effect after a render: the cleanup clears the interval, the body sets a new one\<close>
  "timerEffect s = s\<lparr>timerRef := (gameStatus s = Active \<and> 0 < timeRemaining s)\<rparr>"

definition unmount :: "session \<Rightarrow> session" where
  \<comment> \<open>teardown of the component: the cleanup of the timer effect\<close>
  "unmount s = s\<lparr>timerRef := False\<rparr>"

definition newGame :: "string \<Rightarrow> game" where
  \<comment> \<open>the response of the start request with the secret word \<open>w\<close>\<close>
  "newGame w = \<lparr>secret_word = w, total_score = None, time_bonus = None, base_score = None,
     attempts_used = None, time_remaining = None, is_winning = False\<rparr>"

definition startNewGame :: "session \<Rightarrow> string + string \<Rightarrow> session" where
  "startNewGame s resp =
     (case resp of
        Inl msg \<Rightarrow> s\<lparr>error := orElse msg ''Failed to start game'', loading := False,
                     requests := requests s @ [StartGameReq DEFAULT_TIMER]\<rparr>
      | Inr w \<Rightarrow> s\<lparr>gameState := Some (newGame w),
                    attempts := [], currentGuess := [], timeRemaining := DEFAULT_TIMER,
                    gameStatus := Active, hints := [], wordMeaning := None,
                    meaningClueUsed := False, error := [], loading := False,
                    requests := requests s @ [StartGameReq DEFAULT_TIMER]\<rparr>)"

fun completeGuessFrom :: "hint list \<Rightarrow> string \<Rightarrow> nat \<Rightarrow> nat \<Rightarrow> nat \<Rightarrow> string" where
  \<comment> \<open>the loop of \<open>submitGuess\<close> from position \<open>i\<close>, with \<open>n\<close> positions to go\<close>
  "completeGuessFrom hs cg i userInputIndex 0 = []"
| "completeGuessFrom hs cg i userInputIndex (Suc n) =
     (case find (\<lambda>h. position h = i) hs of
        Some h \<Rightarrow> letter h @ completeGuessFrom hs cg (Suc i) userInputIndex n
      | None \<Rightarrow> charAt cg userInputIndex @ completeGuessFrom hs cg (Suc i) (Suc userInputIndex) n)"

definition completeGuess :: "hint list \<Rightarrow> string \<Rightarrow> string" where
  "completeGuess hs cg = completeGuessFrom hs cg 0 0 WORD_LENGTH"

definition timeRemainingSeconds :: "int \<Rightarrow> int" where
  "timeRemainingSeconds t = max 0 t"

definition baseScore :: rat where
  "baseScore = d1_0"

definition timeBonus :: "int \<Rightarrow> rat" where
  "timeBonus t = dmul (of_int (timeRemainingSeconds t)) d0_1"

definition totalScore :: "int \<Rightarrow> rat" where
  "totalScore t = dadd baseScore (timeBonus t)"

definition wonGuess :: "session \<Rightarrow> session \<Rightarrow> game \<Rightarrow> string + int option \<Rightarrow> session" where
  \<comment> \<open>the branch \<open>response.is_correct\<close> of \<open>submitGuess\<close>; \<open>old\<close> is the state that the
      callback has captured, whose \<open>timeRemaining\<close> and \<open>attempts\<close> it reads\<close>
  "wonGuess old s g cresp =
     s\<lparr>gameState := Some (g\<lparr>total_score := Some (totalScore (timeRemaining old)),
                             time_bonus := Some (timeBonus (timeRemaining old)),
                             base_score := Some baseScore,
                             attempts_used := Some (length (attempts old) + 1),
                             time_remaining := Some (timeRemainingSeconds (timeRemaining old)),
                             is_winning := True\<rparr>),
       wonTimeouts := wonTimeouts s + 1,
       requests := requests s @ [CompleteGameReq (secret_word g) Won (length (attempts old) + 1)
                                   (totalScore (timeRemaining old))],
       coins := (case cresp of
                   Inr (Some awarded) \<Rightarrow> if awarded \<noteq> 0 then coins s + awarded else coins s
                 | _ \<Rightarrow> coins s)\<rparr>"

definition lostGuess :: "session \<Rightarrow> session \<Rightarrow> game \<Rightarrow> session" where
  \<comment> \<open>the branch \<open>attempts.length + 1 >= MAX_ATTEMPTS\<close> of \<open>submitGuess\<close>\<close>
  "lostGuess old s g =
     s\<lparr>gameStatus := Lost,
       requests := requests s @ [CompleteGameReq (secret_word g) Lost (length (attempts old) + 1) d0_0]\<rparr>"

text \<open>
  \<open>submitGuess\<close> with the response to the guess and the response to the completion
  request (the coins awarded, when the response names them). Without a game the read of
  \<open>gameState.secret_word\<close> throws inside the \<open>try\<close> block; the message of that error
  is the engine's and stands here as \<open>TypeError\<close>.
\<close>

definition submitGuess :: "session \<Rightarrow> string + guess_response \<Rightarrow> string + int option \<Rightarrow> session" where
  "submitGuess s gresp cresp =
     (let cg = completeGuess (hints s) (currentGuess s)
      in if length cg \<noteq> WORD_LENGTH then s\<lparr>error := ''Word must be 5 letters''\<rparr>
         else if \<not> lettersOnly cg then s\<lparr>error := ''Only letters allowed''\<rparr>
         else case gameState s of
                None \<Rightarrow> s\<lparr>error := ''TypeError'', loading := False\<rparr>
              | Some g \<Rightarrow>
                  (let s0 = s\<lparr>requests := requests s @ [GuessReq (secret_word g) cg]\<rparr>
                   in case gresp of
                        Inl msg \<Rightarrow> s0\<lparr>error := orElse msg ''Invalid word or error occurred'',
                                      loading := False\<rparr>
                      | Inr r \<Rightarrow>
                          (let s1 = s0\<lparr>error := [],
                                       attempts := attempts s @
                                         [\<lparr>guess = resp_guess r, feedback = resp_feedback r\<rparr>]\<rparr>;
                               s2 = (if is_correct r then wonGuess s s1 g cresp
                                     else if MAX_ATTEMPTS \<le> length (attempts s) + 1
                                     then lostGuess s s1 g
                                     else s1)
                           in s2\<lparr>currentGuess := [], loading := False\<rparr>)))"

definition isAlreadyCorrect :: "attempt list \<Rightarrow> nat \<Rightarrow> bool" where
  \<comment> \<open>\<open>attempts.some(attempt => attempt.feedback[i] === 'correct')\<close>\<close>
  "isAlreadyCorrect as i = list_ex (\<lambda>a. i < length (feedback a) \<and> feedback a ! i = Correct) as"

definition hasHint :: "hint list \<Rightarrow> nat \<Rightarrow> bool" where
  \<comment> \<open>\<open>hints.some(h => h.position === i)\<close>\<close>
  "hasHint hs i = list_ex (\<lambda>h. position h = i) hs"

fun revealedPositionsFrom :: "attempt list \<Rightarrow> hint list \<Rightarrow> nat \<Rightarrow> nat \<Rightarrow> nat list" where
  \<comment> \<open>the loop of \<open>handleHint\<close> from position \<open>i\<close>, with \<open>n\<close> positions to go\<close>
  "revealedPositionsFrom as hs i 0 = []"
| "revealedPositionsFrom as hs i (Suc n) =
     (if isAlreadyCorrect as i then [i] else []) @ (if hasHint hs i then [i] else []) @
     revealedPositionsFrom as hs (Suc i) n"

definition revealedPositions :: "attempt list \<Rightarrow> hint list \<Rightarrow> nat list" where
  "revealedPositions as hs = revealedPositionsFrom as hs 0 WORD_LENGTH"

definition handleHint :: "session \<Rightarrow> string + hint_response \<Rightarrow> session" where
  "handleHint s resp =
     (case secretOf s of
        None \<Rightarrow> s\<lparr>error := ''No active game''\<rparr>
      | Some w \<Rightarrow>
          if coins s < 10 then s\<lparr>showCoinModal := True\<rparr>
          else if WORD_LENGTH \<le> length (revealedPositions (attempts s) (hints s))
          then s\<lparr>error := ''All positions are already revealed!''\<rparr>
          else (let s0 = s\<lparr>error := [], loading := False,
                           requests := requests s @
                             [HintReq w (revealedPositions (attempts s) (hints s))]\<rparr>
                in case resp of
                     Inl msg \<Rightarrow>
                       if includes_str msg ''Not enough coins'' then s0\<lparr>showCoinModal := True\<rparr>
                       else s0\<lparr>error := orElse msg ''Failed to get hint''\<rparr>
                   | Inr r \<Rightarrow>
                       s0\<lparr>hints := hints s @ [\<lparr>position = hint_position r, letter = hint_letter r\<rparr>],
                          coins := remaining_coins r\<rparr>))"

definition meaningClueFailed :: "session \<Rightarrow> string \<Rightarrow> session" where
  \<comment> \<open>the \<open>catch\<close> block of \<open>handleMeaningClue\<close>\<close>
  "meaningClueFailed s msg =
     (if includes_str msg ''Not enough coins'' then s\<lparr>showCoinModal := True\<rparr>
      else s\<lparr>error := orElse msg ''Failed to get meaning clue''\<rparr>)"

definition handleMeaningClue :: "session \<Rightarrow> string + meaning \<Rightarrow> string + int \<Rightarrow> session" where
  "handleMeaningClue s mresp dresp =
     (case secretOf s of
        None \<Rightarrow> s\<lparr>error := ''No active game''\<rparr>
      | Some w \<Rightarrow>
          if meaningClueUsed s \<and> wordMeaning s \<noteq> None then s\<lparr>showMeaningModal := True\<rparr>
          else if coins s < 5 then s\<lparr>showCoinModal := True\<rparr>
          else (let s0 = s\<lparr>error := [], loading := False,
                           requests := requests s @ [WordMeaningReq w]\<rparr>
                in case mresp of
                     Inl msg \<Rightarrow> meaningClueFailed s0 msg
                   | Inr m \<Rightarrow>
                       (let s1 = s0\<lparr>wordMeaning := Some m,
                                    requests := requests s0 @ [DeductCoinsForMeaningReq]\<rparr>
                        in case dresp of
                             Inl msg \<Rightarrow> meaningClueFailed s1 msg
                           | Inr remaining \<Rightarrow>
                               s1\<lparr>coins := remaining, meaningClueUsed := True,
                                  showMeaningModal := True\<rparr>)))"

fun userFilledCountFrom :: "hint list \<Rightarrow> string \<Rightarrow> nat \<Rightarrow> nat \<Rightarrow> nat \<Rightarrow> nat" where
  \<comment> \<open>the loop of \<open>handleLetterClick\<close> from position \<open>i\<close>, with \<open>n\<close> positions to go\<close>
  "userFilledCountFrom hs cg i userFilledCount 0 = userFilledCount"
| "userFilledCountFrom hs cg i userFilledCount (Suc n) =
     (if hasHint hs i then userFilledCountFrom hs cg (Suc i) userFilledCount n
      else if userFilledCount < length cg
      then userFilledCountFrom hs cg (Suc i) (Suc userFilledCount) n
      else userFilledCount)"

definition handleLetterClick :: "session \<Rightarrow> char \<Rightarrow> session" where
  "handleLetterClick s c =
     (if int (userFilledCountFrom (hints s) (currentGuess s) 0 0 WORD_LENGTH)
           < int WORD_LENGTH - int (length (hints s))
      then s\<lparr>currentGuess := toUpperCase (currentGuess s @ [c])\<rparr>
      else s)"

definition handleBackspace :: "session \<Rightarrow> session" where
  "handleBackspace s = s\<lparr>currentGuess := butlast (currentGuess s)\<rparr>"

datatype key =
    Enter "string + guess_response" "string + int option"
  | Backspace
  | Letter char
  | OtherKey

definition handleGlobalKeyPress :: "session \<Rightarrow> key \<Rightarrow> session" where
  "handleGlobalKeyPress s k =
     (if gameStatus s \<noteq> Active then s
      else case k of
             Enter gresp cresp \<Rightarrow> if \<not> loading s then submitGuess s gresp cresp else s
           | Backspace \<Rightarrow> s\<lparr>currentGuess := butlast (currentGuess s)\<rparr>
           | Letter c \<Rightarrow>
               if (isUpper c \<or> isLower c)
                  \<and> int (length (currentGuess s)) < int WORD_LENGTH - int (length (hints s))
               then s\<lparr>currentGuess := toUpperCase (currentGuess s @ [c])\<rparr>
               else s
           | OtherKey \<Rightarrow> s)"

definition fetchWordMeaning :: "session \<Rightarrow> meaning \<Rightarrow> session" where
  \<comment> \<open>the effect that fetches the meaning when the game has ended\<close>
  "fetchWordMeaning s m =
     (if (gameStatus s = Won \<or> gameStatus s = Lost) \<and> wordMeaning s = None
      then case secretOf s of
             None \<Rightarrow> s
           | Some w \<Rightarrow> s\<lparr>wordMeaning := Some m, requests := requests s @ [WordMeaningReq w]\<rparr>
      else s)"


section \<open>The component as a sequential machine\<close>

text \<open>
  An event is a key press, a click on a button that the current render shows and
  enables, a tick of the interval, the firing of a timeout that a winning guess has
  scheduled, or the arrival of a response that no handler awaits (the coin balance, the
  meaning of the word after the game). The responses that a handler awaits come with
  its event.
\<close>

datatype event =
    Mount "string + string"
  | Tick
  | KeyDown key
  | ClickEnter "string + guess_response" "string + int option"
  | ClickDel
  | ClickLetter char
  | ClickHint "string + hint_response"
  | ClickMeaning "string + meaning" "string + int"
  | ClickPlayAgain "string + string"
  | CoinsFetched int
  | MeaningFetched meaning
  | WonTimeout

definition fireWonTimeout :: "session \<Rightarrow> session" where
  \<comment> \<open>the callback \<open>setGameStatus('won')\<close> of a timeout that a winning guess has scheduled\<close>
  "fireWonTimeout s =
     (if 0 < wonTimeouts s then s\<lparr>gameStatus := Won, wonTimeouts := wonTimeouts s - 1\<rparr> else s)"

definition dispatch :: "event \<Rightarrow> session \<Rightarrow> session" where
  "dispatch e s =
     (case e of
        Mount resp \<Rightarrow> if gameStatus s = Idle then startNewGame s resp else s
      | Tick \<Rightarrow> tick s
      | KeyDown k \<Rightarrow> handleGlobalKeyPress s k
      | ClickEnter gresp cresp \<Rightarrow>
          if gameStatus s = Active \<and> \<not> loading s then submitGuess s gresp cresp else s
      | ClickDel \<Rightarrow> if gameStatus s = Active \<and> \<not> loading s then handleBackspace s else s
      | ClickLetter c \<Rightarrow>
          if gameStatus s = Active \<and> \<not> loading s then handleLetterClick s c else s
      | ClickHint resp \<Rightarrow>
          if gameStatus s = Active \<and> \<not> (loading s \<or> 5 \<le> length (hints s))
          then handleHint s resp else s
      | ClickMeaning mresp dresp \<Rightarrow>
          if gameStatus s = Active \<and> \<not> loading s then handleMeaningClue s mresp dresp else s
      | ClickPlayAgain resp \<Rightarrow>
          if gameStatus s = Won \<or> gameStatus s = Lost then startNewGame s resp else s
      | CoinsFetched n \<Rightarrow> s\<lparr>coins := n\<rparr>
      | MeaningFetched m \<Rightarrow> fetchWordMeaning s m
      | WonTimeout \<Rightarrow> fireWonTimeout s)"

text \<open>
  One step of the session: the handler of the event runs to its end, with the responses
  that it awaits, and the component renders, which runs the timer effect. A winning guess
  only schedules the status won: the timeout fires one second later, as an event of its
  own, and until then the status stays as the handler has left it. The events that arrive
  while a handler awaits a response (a tick, a key other than Enter) are not part of the
  model: every run of the model is a run of the component in which each response arrives
  before the next event.
\<close>

definition step :: "event \<Rightarrow> session \<Rightarrow> session" where
  "step e s = timerEffect (dispatch e s)"


fun run :: "session \<Rightarrow> event list \<Rightarrow> session" where
  "run s [] = s"
| "run s (e # es) = run (step e s) es"


section \<open>The keyboard view\<close>

datatype letter_status = KeyCorrect | KeyPresent | KeyAbsent | KeyUnused

fun scanGuess :: "char \<Rightarrow> string \<Rightarrow> label list \<Rightarrow> bool \<Rightarrow> bool option" where
  \<comment> \<open>the inner loop of \<open>getLetterStatus\<close> over the positions of one guess, with the
      flag \<open>hasPresent\<close>; \<open>None\<close> is the early \<open>return 'correct'\<close>; past the end of the
      feedback \<open>feedback[i]\<close> is \<open>undefined\<close>, equal to no label\<close>
  "scanGuess c [] fb hasPresent = Some hasPresent"
| "scanGuess c (g # gs) [] hasPresent = scanGuess c gs [] hasPresent"
| "scanGuess c (g # gs) (f # fs) hasPresent =
     (if g = c
      then if f = Correct then None else scanGuess c gs fs (hasPresent \<or> f = Present)
      else scanGuess c gs fs hasPresent)"

fun scanAttempts :: "char \<Rightarrow> attempt list \<Rightarrow> bool \<Rightarrow> bool option" where
  \<comment> \<open>the outer loop of \<open>getLetterStatus\<close>\<close>
  "scanAttempts c [] hasPresent = Some hasPresent"
| "scanAttempts c (a # as) hasPresent =
     (case scanGuess c (guess a) (feedback a) hasPresent of
        None \<Rightarrow> None
      | Some hasPresent' \<Rightarrow> scanAttempts c as hasPresent')"

definition getLetterStatus :: "attempt list \<Rightarrow> char \<Rightarrow> letter_status" where
  "getLetterStatus as c =
     (case scanAttempts c as False of
        None \<Rightarrow> KeyCorrect
      | Some hasPresent \<Rightarrow>
          if hasPresent then KeyPresent
          else if list_ex (\<lambda>a. c \<in> set (guess a)) as then KeyAbsent
          else KeyUnused)"


section \<open>The specification's wording of two derived notions\<close>

text \<open>
  The keyboard status as the specification words it: a letter is marked with a label
  when some attempt has the letter at a position that carries the label.
\<close>

definition markedWith :: "label \<Rightarrow> attempt list \<Rightarrow> char \<Rightarrow> bool" where
  "markedWith l as c =
     (\<exists>a \<in> set as. \<exists>i < length (guess a).
        guess a ! i = c \<and> i < length (feedback a) \<and> feedback a ! i = l)"

definition keyboardStatus :: "attempt list \<Rightarrow> char \<Rightarrow> letter_status" where
  "keyboardStatus as c =
     (if markedWith Correct as c then KeyCorrect
      else if markedWith Present as c then KeyPresent
      else if \<exists>a \<in> set as. c \<in> set (guess a) then KeyAbsent
      else KeyUnused)"

text \<open>
  The interleaving as the specification words it: position by position, the hint letter
  at a hinted position and the next typed letter (if one is left) at any other.
\<close>

definition hintLetter :: "hint list \<Rightarrow> nat \<Rightarrow> string" where
  "hintLetter hs i = (case find (\<lambda>h. position h = i) hs of None \<Rightarrow> [] | Some h \<Rightarrow> letter h)"

definition typedBefore :: "hint list \<Rightarrow> nat \<Rightarrow> nat" where
  \<comment> \<open>the number of positions below \<open>i\<close> without a hint\<close>
  "typedBefore hs i = length (filter (\<lambda>j. \<not> hasHint hs j) [0..<i])"

definition interleave :: "hint list \<Rightarrow> string \<Rightarrow> string" where
  "interleave hs cg =
     concat (map (\<lambda>i. if hasHint hs i then hintLetter hs i else charAt cg (typedBefore hs i))
                 [0..<WORD_LENGTH])"


section \<open>The server\<close>

text \<open>
  Modelled from the spec: the Guess Evaluator, which runs on the server behind
  \<open>/api/game/guess\<close>; the sources hold only the client that calls it. Pass 1 labels the
  exact matches and takes them out of the letters of the secret; pass 2 goes through the
  other positions in order and labels a letter present, taking one occurrence out, when it
  occurs among the letters that are left, and absent otherwise.
\<close>

definition unmatched :: "string \<Rightarrow> string \<Rightarrow> string" where
  \<comment> \<open>the letters of the secret that pass 1 leaves\<close>
  "unmatched secret g = map fst (filter (\<lambda>(a, b). a \<noteq> b) (zip secret g))"

fun pass2 :: "(char \<times> char) list \<Rightarrow> string \<Rightarrow> label list" where
  "pass2 [] pool = []"
| "pass2 ((a, b) # r) pool =
     (if b = a then Correct # pass2 r pool
      else if b \<in> set pool then Present # pass2 r (remove1 b pool)
      else Absent # pass2 r pool)"

definition evaluate :: "string \<Rightarrow> string \<Rightarrow> label list" where
  "evaluate secret g = pass2 (zip secret g) (unmatched secret g)"

text \<open>
  Modelled from the spec: the response of the server to a guess. It rejects a guess that
  is not five letters, compares without regard to letter case, and reports a correct
  guess when the feedback is all correct.
\<close>

definition serverGuess :: "string \<Rightarrow> string \<Rightarrow> string + guess_response" where
  "serverGuess secret g =
     (if length g \<noteq> WORD_LENGTH \<or> \<not> lettersOnly g then Inl ''InvalidInput''
      else let fb = evaluate (toUpperCase secret) (toUpperCase g)
           in Inr \<lparr>resp_guess = g, resp_feedback = fb,
                   is_correct = list_all (\<lambda>l. l = Correct) fb\<rparr>)"



section \<open>Sample inputs\<close>

definition typed :: "string \<Rightarrow> event list" where
  \<comment> \<open>the key presses that type a word\<close>
  "typed w = map (\<lambda>c. KeyDown (Letter c)) w"

definition allAbsent :: "string \<Rightarrow> guess_response" where
  "allAbsent g = \<lparr>resp_guess = g, resp_feedback = replicate 5 Absent, is_correct = False\<rparr>"

definition allCorrect :: "string \<Rightarrow> guess_response" where
  "allCorrect g = \<lparr>resp_guess = g, resp_feedback = replicate 5 Correct, is_correct = True\<rparr>"

definition missed :: "string \<Rightarrow> event list" where
  \<comment> \<open>typing a word and submitting it, with a response that is all absent\<close>
  "missed g = typed g @ [KeyDown (Enter (Inr (allAbsent g)) (Inl []))]"


section \<open>Rounding\<close>


lemma bitlen_powi_bounds:
  assumes "0 < n"
  shows "(2::rat) powi (bitlen n - 1) \<le> of_int n" and "of_int n < (2::rat) powi bitlen n"
proof -
  from assms have b1: "1 \<le> bitlen n"
    using bitlen_eq_zero_iff [of n] bitlen_nonneg [of n] by linarith
  from bitlen_bounds [OF assms]
  have lo: "2 ^ nat (bitlen n - 1) \<le> n" and hi: "n < 2 ^ nat (bitlen n)" by simp_all
  from lo have "(of_int (2 ^ nat (bitlen n - 1)) :: rat) \<le> of_int n"
    by (simp only: of_int_le_iff)
  then show "(2::rat) powi (bitlen n - 1) \<le> of_int n"
    using b1 by (simp add: power_int_def)
  from hi have "(of_int n :: rat) < of_int (2 ^ nat (bitlen n))"
    by (simp only: of_int_less_iff)
  then show "of_int n < (2::rat) powi bitlen n"
    using b1 by (simp add: power_int_def)
qed

lemma ilog2_bounds:
  assumes "0 < x"
  shows "2 powi ilog2 x \<le> x" and "x < 2 powi (ilog2 x + 1)"
proof -
  obtain p q where pq: "quotient_of x = (p, q)" by (cases "quotient_of x")
  then have q: "0 < q" and x: "x = of_int p / of_int q"
    using quotient_of_denom_pos [OF pq] quotient_of_div [OF pq] by simp_all
  from assms x q have p: "0 < p"
    by (simp add: zero_less_divide_iff)
  define k where "k = bitlen p - bitlen q"
  have up: "x < 2 powi (k + 1)"
  proof -
    have "of_int p < (2::rat) powi bitlen p" by (rule bitlen_powi_bounds [OF p])
    also have "\<dots> = 2 powi (k + 1) * 2 powi (bitlen q - 1)"
      by (simp add: k_def flip: power_int_add)
    also have "\<dots> \<le> 2 powi (k + 1) * of_int q"
      by (intro mult_left_mono bitlen_powi_bounds [OF q]) simp
    finally show ?thesis using q by (simp add: x pos_divide_less_eq)
  qed
  have lo: "2 powi (k - 1) \<le> x"
  proof -
    have "2 powi (k - 1) * of_int q \<le> 2 powi (k - 1) * (2::rat) powi bitlen q"
      by (intro mult_left_mono less_imp_le [OF bitlen_powi_bounds(2) [OF q]]) simp
    also have "\<dots> = 2 powi (bitlen p - 1)"
      by (simp add: k_def flip: power_int_add)
    also have "\<dots> \<le> of_int p" by (rule bitlen_powi_bounds [OF p])
    finally show ?thesis using q by (simp add: x pos_le_divide_eq)
  qed
  have il: "ilog2 x = (if 2 powi k \<le> x then k else k - 1)"
    by (simp add: ilog2_def pq k_def Let_def)
  show "2 powi ilog2 x \<le> x" using lo by (simp add: il)
  show "x < 2 powi (ilog2 x + 1)" using up by (auto simp add: il not_le)
qed

lemma roundTiesToEven_ge_floor: "\<lfloor>x\<rfloor> \<le> roundTiesToEven x"
  by (simp add: roundTiesToEven_def Let_def)

lemma toDouble_nonneg:
  assumes "0 \<le> x"
  shows "0 \<le> toDouble x"
proof -
  have "0 \<le> roundTiesToEven (x / 2 powi e)" for e
  proof -
    have "0 \<le> x / 2 powi e" using assms by simp
    then have "0 \<le> \<lfloor>x / 2 powi e\<rfloor>" by simp
    then show ?thesis using roundTiesToEven_ge_floor [of "x / 2 powi e"] by linarith
  qed
  then show ?thesis by (simp add: toDouble_def Let_def)
qed

lemma toDouble_ge_1:
  assumes "1 \<le> x"
  shows "1 \<le> toDouble x"
proof -
  from assms have pos: "0 < x" by simp
  let ?L = "ilog2 x"
  have L0: "0 \<le> ?L"
  proof (rule ccontr)
    assume "\<not> 0 \<le> ?L"
    then have "?L + 1 \<le> 0" by simp
    then have "(2::rat) powi (?L + 1) \<le> 1"
      by (cases "?L + 1 = 0") (auto simp add: power_int_def intro!: power_le_one)
    with ilog2_bounds(2) [OF pos] assms show False by simp
  qed
  have "(2::rat) ^ 52 = 2 powi ?L / 2 powi (?L - 52)"
    by (simp add: power_int_diff)
  also have "\<dots> \<le> x / 2 powi (?L - 52)"
    by (intro divide_right_mono ilog2_bounds(1) [OF pos]) simp
  finally have "(2::int) ^ 52 \<le> \<lfloor>x / 2 powi (?L - 52)\<rfloor>"
    by (simp add: le_floor_iff)
  then have r: "(2::int) ^ 52 \<le> roundTiesToEven (x / 2 powi (?L - 52))"
    using roundTiesToEven_ge_floor [of "x / 2 powi (?L - 52)"] by linarith
  have "(1::rat) \<le> 2 powi ?L" using L0 by (simp add: one_le_power_int)
  also have "\<dots> = 2 ^ 52 * 2 powi (?L - 52)"
    by (simp add: power_int_diff)
  also have "\<dots> \<le> of_int (roundTiesToEven (x / 2 powi (?L - 52))) * 2 powi (?L - 52)"
  proof (rule mult_right_mono)
    from r have "(of_int ((2::int) ^ 52) :: rat) \<le> of_int (roundTiesToEven (x / 2 powi (?L - 52)))"
      by (simp only: of_int_le_iff)
    then show "(2::rat) ^ 52 \<le> of_int (roundTiesToEven (x / 2 powi (?L - 52)))" by simp
  qed simp
  finally show ?thesis using pos by (simp add: toDouble_def Let_def)
qed

lemma d1_0_eq: "d1_0 = 1"
  by code_simp

lemma d0_0_eq: "d0_0 = 0"
  by (simp add: d0_0_def toDouble_def)

lemma d0_1_eq: "d0_1 = 3602879701896397 / 36028797018963968"
  by code_simp

lemma d0_1_pos: "0 < d0_1"
  by (simp add: d0_1_eq)

lemma timeBonus_nonneg: "0 \<le> timeBonus t"
  unfolding timeBonus_def dmul_def timeRemainingSeconds_def
  by (intro toDouble_nonneg mult_nonneg_nonneg less_imp_le [OF d0_1_pos]) simp

lemma totalScore_ge_base: "d1_0 \<le> totalScore t"
  unfolding totalScore_def dadd_def baseScore_def d1_0_eq
  using timeBonus_nonneg [of t] by (intro toDouble_ge_1) simp

section \<open>Facts about the handlers\<close>

subsection \<open>An accepted guess that ends the game\<close>

lemma submitGuess_won:
  assumes "gameState s = Some g"
    and "length (completeGuess (hints s) (currentGuess s)) = WORD_LENGTH"
    and "lettersOnly (completeGuess (hints s) (currentGuess s))"
    and "is_correct r"
  shows "submitGuess s (Inr r) cresp =
    s\<lparr>gameState := Some (g\<lparr>total_score := Some (totalScore (timeRemaining s)),
                             time_bonus := Some (timeBonus (timeRemaining s)),
                             base_score := Some baseScore,
                             attempts_used := Some (length (attempts s) + 1),
                             time_remaining := Some (timeRemainingSeconds (timeRemaining s)),
                             is_winning := True\<rparr>),
      wonTimeouts := wonTimeouts s + 1,
      requests := requests s @ [GuessReq (secret_word g) (completeGuess (hints s) (currentGuess s)),
                                CompleteGameReq (secret_word g) Won (length (attempts s) + 1)
                                   (totalScore (timeRemaining s))],
      coins := (case cresp of
                   Inr (Some awarded) \<Rightarrow> if awarded \<noteq> 0 then coins s + awarded else coins s
                 | _ \<Rightarrow> coins s),
      error := [],
      attempts := attempts s @ [\<lparr>guess = resp_guess r, feedback = resp_feedback r\<rparr>],
      currentGuess := [], loading := False\<rparr>"
  using assms by (simp add: submitGuess_def wonGuess_def Let_def split: sum.splits option.splits)

lemma submitGuess_lost:
  assumes "gameState s = Some g"
    and "length (completeGuess (hints s) (currentGuess s)) = WORD_LENGTH"
    and "lettersOnly (completeGuess (hints s) (currentGuess s))"
    and "\<not> is_correct r" and "MAX_ATTEMPTS \<le> length (attempts s) + 1"
  shows "submitGuess s (Inr r) cresp =
    s\<lparr>gameStatus := Lost,
      requests := requests s @ [GuessReq (secret_word g) (completeGuess (hints s) (currentGuess s)),
                                CompleteGameReq (secret_word g) Lost (length (attempts s) + 1) d0_0],
      error := [],
      attempts := attempts s @ [\<lparr>guess = resp_guess r, feedback = resp_feedback r\<rparr>],
      currentGuess := [], loading := False\<rparr>"
  using assms by (simp add: submitGuess_def lostGuess_def Let_def)

subsection \<open>The countdown is never negative\<close>

lemma submitGuess_timeRemaining [simp]: "timeRemaining (submitGuess s gresp cresp) = timeRemaining s"
  by (simp add: submitGuess_def wonGuess_def lostGuess_def Let_def split: option.splits sum.splits)

lemma handleHint_timeRemaining [simp]: "timeRemaining (handleHint s resp) = timeRemaining s"
  by (simp add: handleHint_def Let_def split: option.splits sum.splits)

lemma handleMeaningClue_timeRemaining [simp]:
  "timeRemaining (handleMeaningClue s mresp dresp) = timeRemaining s"
  by (simp add: handleMeaningClue_def meaningClueFailed_def Let_def split: option.splits sum.splits)

lemma handleGlobalKeyPress_timeRemaining [simp]:
  "timeRemaining (handleGlobalKeyPress s k) = timeRemaining s"
  by (simp add: handleGlobalKeyPress_def split: key.splits)

lemma startNewGame_timeRemaining:
  "timeRemaining (startNewGame s resp) = (case resp of Inl _ \<Rightarrow> timeRemaining s | Inr _ \<Rightarrow> DEFAULT_TIMER)"
  by (simp add: startNewGame_def split: sum.splits)

lemma tick_timeRemaining:
  "timeRemaining (tick s) =
     (if timerRef s then if timeRemaining s \<le> 1 then 0 else timeRemaining s - 1 else timeRemaining s)"
  by (simp add: tick_def)

lemma fetchWordMeaning_frame [simp]:
  "timeRemaining (fetchWordMeaning s m) = timeRemaining s"
  "loading (fetchWordMeaning s m) = loading s"
  "gameStatus (fetchWordMeaning s m) = gameStatus s"
  "attempts (fetchWordMeaning s m) = attempts s"
  "wonTimeouts (fetchWordMeaning s m) = wonTimeouts s"
  "meaningClueUsed (fetchWordMeaning s m) = meaningClueUsed s"
  "gameState (fetchWordMeaning s m) = gameState s"
  by (cases "secretOf s"; simp add: fetchWordMeaning_def)+


lemma step_timeRemaining_nonneg:
  assumes "0 \<le> timeRemaining s"
  shows "0 \<le> timeRemaining (step e s)"
  using assms
  by (cases e)
     (simp_all add: step_def dispatch_def timerEffect_def fireWonTimeout_def
        startNewGame_timeRemaining tick_timeRemaining handleLetterClick_def handleBackspace_def
        DEFAULT_TIMER_def split: sum.splits)

lemma run_timeRemaining_nonneg:
  "0 \<le> timeRemaining s \<Longrightarrow> 0 \<le> timeRemaining (run s es)"
  by (induction es arbitrary: s) (simp_all add: step_timeRemaining_nonneg)

lemma reachable_timeRemaining_nonneg: "0 \<le> timeRemaining (run initial es)"
  by (rule run_timeRemaining_nonneg) (simp add: initial_def DEFAULT_TIMER_def)


subsection \<open>The state after a step\<close>

lemma run_append: "run s (es @ fs) = run (run s es) fs"
  by (induction es arbitrary: s) simp_all

lemma step_rendered:
  "timerRef (step e s) = (gameStatus (step e s) = Active \<and> 0 < timeRemaining (step e s))"
  by (simp add: step_def timerEffect_def)

lemma reachable_rendered:
  "timerRef (run initial es) =
     (gameStatus (run initial es) = Active \<and> 0 < timeRemaining (run initial es))"
  by (cases es rule: rev_cases) (simp_all add: run_append step_rendered initial_def)

lemma rendered_fixed:
  assumes "timerRef s = (gameStatus s = Active \<and> 0 < timeRemaining s)"
  shows "timerEffect s = s"
  using assms by (simp add: timerEffect_def)


subsection \<open>The meaning clue\<close>

lemma secretOf_submitGuess [simp]: "secretOf (submitGuess s gresp cresp) = secretOf s"
proof -
  have "map_option secret_word (gameState (submitGuess s gresp cresp)) =
      map_option secret_word (gameState s)"
    by (auto simp add: submitGuess_def wonGuess_def lostGuess_def Let_def
        split: option.splits sum.splits)
  then show ?thesis
    by (cases "gameState s"; cases "gameState (submitGuess s gresp cresp)")
       (simp_all add: secretOf_def)
qed

lemma meaning_submitGuess [simp]:
  "meaningClueUsed (submitGuess s gresp cresp) = meaningClueUsed s"
  "wordMeaning (submitGuess s gresp cresp) = wordMeaning s"
  by (simp_all add: submitGuess_def wonGuess_def lostGuess_def Let_def
      split: option.splits sum.splits)

lemma gameState_handleHint [simp]: "gameState (handleHint s resp) = gameState s"
  by (simp add: handleHint_def Let_def split: option.splits sum.splits)

lemma secretOf_handleHint [simp]: "secretOf (handleHint s resp) = secretOf s"
  by (simp add: secretOf_def)

lemma meaning_handleHint [simp]:
  "meaningClueUsed (handleHint s resp) = meaningClueUsed s"
  "wordMeaning (handleHint s resp) = wordMeaning s"
  by (simp_all add: handleHint_def Let_def split: option.splits sum.splits)




lemma secretOf_simps [simp]:
  "secretOf (s\<lparr>currentGuess := a\<rparr>) = secretOf s"
  "secretOf (s\<lparr>timeRemaining := b\<rparr>) = secretOf s"
  "secretOf (s\<lparr>coins := c\<rparr>) = secretOf s"
  "secretOf (s\<lparr>wordMeaning := d\<rparr>) = secretOf s"
  "secretOf (s\<lparr>showMeaningModal := f\<rparr>) = secretOf s"
  "secretOf (s\<lparr>timerRef := h\<rparr>) = secretOf s"
  "secretOf (s\<lparr>gameStatus := i\<rparr>) = secretOf s"
  "secretOf (s\<lparr>wonTimeouts := j\<rparr>) = secretOf s"
  "secretOf (s\<lparr>showCoinModal := k\<rparr>) = secretOf s"
  by (simp_all add: secretOf_def)




subsection \<open>The scan of the keyboard view\<close>

lemma scanGuess_None:
  "scanGuess c g fb hp = None \<longleftrightarrow> (c, Correct) \<in> set (zip g fb)"
  by (induction c g fb hp rule: scanGuess.induct) auto

lemma scanGuess_Some:
  "scanGuess c g fb hp = Some b \<Longrightarrow> b = (hp \<or> (c, Present) \<in> set (zip g fb))"
  by (induction c g fb hp rule: scanGuess.induct) (auto split: if_splits)

lemma scanAttempts_None:
  "scanAttempts c as hp = None \<longleftrightarrow> (\<exists>a \<in> set as. (c, Correct) \<in> set (zip (guess a) (feedback a)))"
proof (induction as arbitrary: hp)
  case Nil
  then show ?case by simp
next
  case (Cons a as)
  show ?case
  proof (cases "scanGuess c (guess a) (feedback a) hp")
    case None
    then show ?thesis using scanGuess_None [of c "guess a" "feedback a" hp] by simp
  next
    case (Some b)
    then have "(c, Correct) \<notin> set (zip (guess a) (feedback a))"
      using scanGuess_None [of c "guess a" "feedback a" hp] by simp
    with Some Cons.IH [of b] show ?thesis by simp
  qed
qed

lemma scanAttempts_Some:
  "scanAttempts c as hp = Some b \<Longrightarrow>
     b = (hp \<or> (\<exists>a \<in> set as. (c, Present) \<in> set (zip (guess a) (feedback a))))"
proof (induction as arbitrary: hp)
  case Nil
  then show ?case by simp
next
  case (Cons a as)
  from Cons.prems obtain b' where b': "scanGuess c (guess a) (feedback a) hp = Some b'"
    and rest: "scanAttempts c as b' = Some b"
    by (auto split: option.splits)
  from scanGuess_Some [OF b'] Cons.IH [OF rest] show ?case by auto
qed

lemma markedWith_zip:
  "markedWith l as c \<longleftrightarrow> (\<exists>a \<in> set as. (c, l) \<in> set (zip (guess a) (feedback a)))"
  unfolding markedWith_def in_set_zip by force

lemma getLetterStatus_keyboardStatus: "getLetterStatus as c = keyboardStatus as c"
proof (cases "scanAttempts c as False")
  case None
  then show ?thesis
    using scanAttempts_None [of c as False]
    by (simp add: getLetterStatus_def keyboardStatus_def markedWith_zip)
next
  case (Some b)
  then have nc: "\<not> markedWith Correct as c"
    using scanAttempts_None [of c as False] by (simp add: markedWith_zip)
  from scanAttempts_Some [OF Some] have "b = markedWith Present as c"
    by (simp add: markedWith_zip)
  with Some nc show ?thesis
    by (simp add: getLetterStatus_def keyboardStatus_def list_ex_iff)
qed

lemma markedWith_append: "markedWith l as c \<Longrightarrow> markedWith l (as @ bs) c"
  by (auto simp add: markedWith_def)


subsection \<open>The loop that builds the guess\<close>

lemma find_hasHint:
  "find (\<lambda>h. position h = i) hs = None \<longleftrightarrow> \<not> hasHint hs i"
  by (auto simp add: hasHint_def find_None_iff list_ex_iff)

lemma completeGuessFrom_slots:
  "completeGuessFrom hs cg i u n =
     concat (map (\<lambda>j. if hasHint hs j then hintLetter hs j
                       else charAt cg (u + length (filter (\<lambda>k. \<not> hasHint hs k) [i..<j])))
                 [i..<i + n])"
proof (induction n arbitrary: i u)
  case 0
  then show ?case by simp
next
  case (Suc n)
  let ?slot = "\<lambda>u i j. if hasHint hs j then hintLetter hs j
     else charAt cg (u + length (filter (\<lambda>k. \<not> hasHint hs k) [i..<j]))"
  let ?u' = "if hasHint hs i then u else Suc u"
  have upt: "[i..<i + Suc n] = i # [Suc i..<Suc i + n]"
    by (simp add: upt_conv_Cons)
  have shift: "?slot u i j = ?slot ?u' (Suc i) j" if "j \<in> set [Suc i..<Suc i + n]" for j
  proof -
    from that have "i < j" by auto
    then have "[i..<j] = i # [Suc i..<j]" by (simp add: upt_conv_Cons)
    then show ?thesis by simp
  qed
  have first: "?slot u i i = (if hasHint hs i then hintLetter hs i else charAt cg u)"
    by simp
  have "concat (map (?slot u i) [i..<i + Suc n]) =
      ?slot u i i @ concat (map (?slot u i) [Suc i..<Suc i + n])"
    by (simp only: upt list.map concat.simps)
  also have "map (?slot u i) [Suc i..<Suc i + n] = map (?slot ?u' (Suc i)) [Suc i..<Suc i + n]"
    by (rule map_cong [OF refl]) (rule shift)
  also have "concat (map (?slot ?u' (Suc i)) [Suc i..<Suc i + n]) =
      completeGuessFrom hs cg (Suc i) ?u' n"
    by (simp only: Suc.IH [of "Suc i" ?u'])
  finally have rhs: "concat (map (?slot u i) [i..<i + Suc n]) =
      (if hasHint hs i then hintLetter hs i else charAt cg u) @
      completeGuessFrom hs cg (Suc i) ?u' n"
    by (simp only: first)
  have lhs: "completeGuessFrom hs cg i u (Suc n) =
      (if hasHint hs i then hintLetter hs i else charAt cg u) @
      completeGuessFrom hs cg (Suc i) ?u' n"
    using find_hasHint [of i hs]
    by (cases "find (\<lambda>h. position h = i) hs") (simp_all add: hintLetter_def)
  from lhs rhs show ?case by (simp only:)
qed

lemma completeGuess_interleave: "completeGuess hs cg = interleave hs cg"
  by (simp add: completeGuess_def interleave_def typedBefore_def completeGuessFrom_slots
      cong: if_cong)

lemma typedBefore_less:
  assumes "i < n" and "\<not> hasHint hs i"
  shows "typedBefore hs i < typedBefore hs n"
proof -
  from assms(1) have "[0..<n] = [0..<i] @ [i..<i + (n - i)]"
    using upt_add_eq_append [of 0 i "n - i"] by simp
  with assms(1) have "[0..<n] = [0..<i] @ i # [Suc i..<n]"
    by (simp add: upt_conv_Cons)
  with assms(2) show ?thesis by (simp add: typedBefore_def)
qed

lemma hintLetter_length:
  assumes "\<forall>h \<in> set hs. length (letter h) = 1" and "hasHint hs i"
  shows "length (hintLetter hs i) = 1"
proof -
  from assms(2) obtain h where h: "find (\<lambda>h. position h = i) hs = Some h"
    using find_hasHint [of i hs] by (cases "find (\<lambda>h. position h = i) hs") auto
  then have "h \<in> set hs" by (auto simp add: find_Some_iff)
  with assms(1) h show ?thesis by (simp add: hintLetter_def)
qed

lemma hintLetter_distinct:
  assumes "distinct (map position hs)" and "h \<in> set hs"
  shows "hintLetter hs (position h) = letter h"
proof -
  from assms(2) have "hasHint hs (position h)" by (auto simp add: hasHint_def list_ex_iff)
  then obtain h' where h': "find (\<lambda>k. position k = position h) hs = Some h'"
    using find_hasHint [of "position h" hs]
    by (cases "find (\<lambda>k. position k = position h) hs") auto
  then have "h' \<in> set hs" "position h' = position h"
    by (auto simp add: find_Some_iff)
  with assms have "h' = h"
    by (meson distinct_map inj_onD)
  with h' show ?thesis by (simp add: hintLetter_def)
qed

lemma interleave_letters:
  assumes one: "\<forall>h \<in> set hs. length (letter h) = 1"
    and enough: "typedBefore hs WORD_LENGTH \<le> length cg"
  shows "interleave hs cg =
    map (\<lambda>i. if hasHint hs i then hd (hintLetter hs i) else cg ! typedBefore hs i) [0..<WORD_LENGTH]"
proof -
  have "(if hasHint hs i then hintLetter hs i else charAt cg (typedBefore hs i)) =
      [if hasHint hs i then hd (hintLetter hs i) else cg ! typedBefore hs i]"
    if "i \<in> set [0..<WORD_LENGTH]" for i
  proof (cases "hasHint hs i")
    case True
    from hintLetter_length [OF one True] show ?thesis
      using True by (cases "hintLetter hs i") simp_all
  next
    case False
    from that have "i < WORD_LENGTH" by simp
    from typedBefore_less [OF this False] enough show ?thesis
      using False by (simp add: charAt_def)
  qed
  then have m: "map (\<lambda>i. if hasHint hs i then hintLetter hs i else charAt cg (typedBefore hs i))
        [0..<WORD_LENGTH] =
      map (\<lambda>i. [if hasHint hs i then hd (hintLetter hs i) else cg ! typedBefore hs i])
        [0..<WORD_LENGTH]"
    by (intro map_cong refl)
  show ?thesis
    unfolding interleave_def m by (rule concat_map_singleton)
qed

lemma submitGuess_rejected:
  "length (completeGuess (hints s) (currentGuess s)) \<noteq> WORD_LENGTH \<Longrightarrow>
     submitGuess s gresp cresp = s\<lparr>error := ''Word must be 5 letters''\<rparr>"
  "length (completeGuess (hints s) (currentGuess s)) = WORD_LENGTH \<Longrightarrow>
   \<not> lettersOnly (completeGuess (hints s) (currentGuess s)) \<Longrightarrow>
     submitGuess s gresp cresp = s\<lparr>error := ''Only letters allowed''\<rparr>"
  by (simp_all add: submitGuess_def)


subsection \<open>The evaluator and letter case\<close>

lemma pass2_all_correct:
  "list_all (\<lambda>l. l = Correct) (pass2 zs pool) \<longleftrightarrow> (\<forall>(a, b) \<in> set zs. a = b)"
  by (induction zs pool rule: pass2.induct) auto

lemma evaluate_all_correct:
  assumes "length secret = length g"
  shows "list_all (\<lambda>l. l = Correct) (evaluate secret g) \<longleftrightarrow> g = secret"
proof -
  have "list_all (\<lambda>l. l = Correct) (evaluate secret g) \<longleftrightarrow> secret = g"
    using assms by (simp add: evaluate_def pass2_all_correct list_eq_iff_zip_eq)
  then show ?thesis by auto
qed

lemma length_evaluate: "length (evaluate secret g) = min (length secret) (length g)"
proof -
  have "length (pass2 zs pool) = length zs" for zs pool
    by (induction zs pool rule: pass2.induct) auto
  then show ?thesis by (simp add: evaluate_def)
qed

lemma length_toUpperCase [simp]: "length (toUpperCase w) = length w"
  by (simp add: toUpperCase_def)

lemma letter_toUpper:
  "(isUpper (if isLower c then char_of (of_char c - (32 :: nat)) else c) \<or>
    isLower (if isLower c then char_of (of_char c - (32 :: nat)) else c)) =
   (isUpper c \<or> isLower c)"
proof (cases "isLower c")
  case True
  then have r: "97 \<le> (of_char c :: nat)" "(of_char c :: nat) \<le> 122"
    by (simp_all add: isLower_def)
  then have "(of_char c - 32 :: nat) < 256"
    by arith
  then have e: "of_char (char_of (of_char c - (32 :: nat)) :: char) = (of_char c - 32 :: nat)"
    by simp
  have "isUpper (char_of (of_char c - (32 :: nat)))"
    unfolding isUpper_def e using r by arith
  with True show ?thesis by simp
next
  case False
  then show ?thesis by simp
qed

lemma lettersOnly_toUpperCase [simp]: "lettersOnly (toUpperCase w) = lettersOnly w"
proof -
  have "list_all (\<lambda>c. isUpper c \<or> isLower c)
          (map (\<lambda>c. if isLower c then char_of (of_char c - (32 :: nat)) else c) w) =
        list_all (\<lambda>c. isUpper c \<or> isLower c) w"
    by (induction w) (simp_all add: letter_toUpper del: of_char_of)
  then show ?thesis by (simp add: lettersOnly_def toUpperCase_def)
qed


lemma serverGuess_valid:
  assumes "length g = WORD_LENGTH" and "lettersOnly g"
  shows "serverGuess secret g =
    Inr \<lparr>resp_guess = g, resp_feedback = evaluate (toUpperCase secret) (toUpperCase g),
         is_correct = list_all (\<lambda>l. l = Correct) (evaluate (toUpperCase secret) (toUpperCase g))\<rparr>"
  using assms by (simp add: serverGuess_def Let_def)

subsection \<open>Status, attempts and the loading flag\<close>

lemma submitGuess_status:
  "gameStatus (submitGuess s gresp cresp) = gameStatus s \<or>
   gameStatus (submitGuess s gresp cresp) = Lost"
  by (auto simp add: submitGuess_def wonGuess_def lostGuess_def Let_def
      split: option.splits sum.splits)

lemma submitGuess_wonTimeouts:
  "wonTimeouts (submitGuess s gresp cresp) =
     (if length (completeGuess (hints s) (currentGuess s)) = WORD_LENGTH \<and>
         lettersOnly (completeGuess (hints s) (currentGuess s)) \<and> gameState s \<noteq> None \<and>
         (case gresp of Inl _ \<Rightarrow> False | Inr r \<Rightarrow> is_correct r)
      then wonTimeouts s + 1 else wonTimeouts s)"
  by (auto simp add: submitGuess_def wonGuess_def lostGuess_def Let_def
      split: option.splits sum.splits)

lemma submitGuess_attempts:
  "attempts (submitGuess s gresp cresp) =
     (if length (completeGuess (hints s) (currentGuess s)) = WORD_LENGTH \<and>
         lettersOnly (completeGuess (hints s) (currentGuess s)) \<and> gameState s \<noteq> None
      then case gresp of
             Inl _ \<Rightarrow> attempts s
           | Inr r \<Rightarrow> attempts s @ [\<lparr>guess = resp_guess r, feedback = resp_feedback r\<rparr>]
      else attempts s)"
  by (auto simp add: submitGuess_def wonGuess_def lostGuess_def Let_def
      split: option.splits sum.splits)

lemma submitGuess_loading: "\<not> loading s \<Longrightarrow> \<not> loading (submitGuess s gresp cresp)"
  by (auto simp add: submitGuess_def wonGuess_def lostGuess_def Let_def
      split: option.splits sum.splits)

lemma handleHint_frame [simp]:
  "gameStatus (handleHint s resp) = gameStatus s"
  "attempts (handleHint s resp) = attempts s"
  "wonTimeouts (handleHint s resp) = wonTimeouts s"
  by (simp_all add: handleHint_def Let_def split: option.splits sum.splits)

lemma handleHint_loading: "\<not> loading s \<Longrightarrow> \<not> loading (handleHint s resp)"
  by (simp add: handleHint_def Let_def split: option.splits sum.splits)

lemma handleMeaningClue_frame [simp]:
  "gameStatus (handleMeaningClue s mresp dresp) = gameStatus s"
  "attempts (handleMeaningClue s mresp dresp) = attempts s"
  "wonTimeouts (handleMeaningClue s mresp dresp) = wonTimeouts s"
  by (simp_all add: handleMeaningClue_def meaningClueFailed_def Let_def
      split: option.splits sum.splits)

lemma handleMeaningClue_loading:
  "\<not> loading s \<Longrightarrow> \<not> loading (handleMeaningClue s mresp dresp)"
  by (simp add: handleMeaningClue_def meaningClueFailed_def Let_def
      split: option.splits sum.splits)

lemma tick_frame [simp]:
  "attempts (tick s) = attempts s" "wonTimeouts (tick s) = wonTimeouts s"
  "loading (tick s) = loading s"
  by (simp_all add: tick_def handleTimeUp_def Let_def split: option.splits)

lemma tick_status: "gameStatus (tick s) = gameStatus s \<or> gameStatus (tick s) = Lost"
  by (simp add: tick_def handleTimeUp_def Let_def split: option.splits)

lemma startNewGame_frame [simp]:
  "wonTimeouts (startNewGame s resp) = wonTimeouts s" "\<not> loading (startNewGame s resp)"
  by (simp_all add: startNewGame_def split: sum.splits)

lemma startNewGame_fresh:
  "(gameStatus (startNewGame s resp) = gameStatus s \<and>
    attempts (startNewGame s resp) = attempts s) \<or>
   (gameStatus (startNewGame s resp) = Active \<and> attempts (startNewGame s resp) = [])"
  by (simp add: startNewGame_def split: sum.splits)

lemma step_not_loading: "\<not> loading s \<Longrightarrow> \<not> loading (step e s)"
proof (cases e)
  case (KeyDown k)
  then show "\<not> loading s \<Longrightarrow> \<not> loading (step e s)"
    by (cases k)
       (simp_all add: step_def dispatch_def timerEffect_def fireWonTimeout_def
          handleGlobalKeyPress_def submitGuess_loading)
qed (simp_all add: step_def dispatch_def timerEffect_def fireWonTimeout_def
      submitGuess_loading handleHint_loading handleMeaningClue_loading handleLetterClick_def
      handleBackspace_def)

lemma reachable_not_loading: "\<not> loading (run initial es)"
proof -
  have "\<not> loading s \<Longrightarrow> \<not> loading (run s es)" for s
    by (induction es arbitrary: s) (simp_all add: step_not_loading)
  then show ?thesis by (simp add: initial_def)
qed

lemma step_enter:
  assumes "gameStatus s = Active" and "\<not> loading s"
  shows "step (KeyDown (Enter gresp cresp)) s = timerEffect (submitGuess s gresp cresp)"
    and "step (ClickEnter gresp cresp) s = timerEffect (submitGuess s gresp cresp)"
  using assms by (simp_all add: step_def dispatch_def handleGlobalKeyPress_def)

lemma click_enter_is_key_enter:
  "step (ClickEnter gresp cresp) s = step (KeyDown (Enter gresp cresp)) s"
  by (simp add: step_def dispatch_def handleGlobalKeyPress_def)

lemma submitGuess_not_newly_won:
  "gameStatus (submitGuess s gresp cresp) = Won \<Longrightarrow> gameStatus s = Won"
  using submitGuess_status [of s gresp cresp] by auto

lemma tick_not_newly_won: "gameStatus (tick s) = Won \<Longrightarrow> gameStatus s = Won"
  using tick_status [of s] by auto

lemma startNewGame_not_newly_won:
  "gameStatus (startNewGame s resp) = Won \<Longrightarrow> gameStatus s = Won"
  using startNewGame_fresh [of s resp] by auto


subsection \<open>How the status won is reached\<close>

text \<open>
  The status is set to won by nothing but a timeout that a winning guess has scheduled,
  and a timeout is scheduled by nothing but a guess, submitted in an active session, that
  the response reports as correct. With the server of the specification that is the guess
  that equals the secret word up to letter case.
\<close>

lemma step_won_only_by_timeout:
  assumes "gameStatus (step e s) = Won" and "gameStatus s \<noteq> Won"
  shows "e = WonTimeout \<and> 0 < wonTimeouts s"
proof -
  from assms(1) have w: "gameStatus (dispatch e s) = Won"
    by (simp add: step_def timerEffect_def)
  show ?thesis
  proof (cases e)
    case (KeyDown k)
    with w assms(2) show ?thesis
      by (cases k)
         (auto simp add: dispatch_def handleGlobalKeyPress_def split: if_splits
            dest: submitGuess_not_newly_won)
  next
    case (ClickEnter g c)
    with w assms(2) show ?thesis
      by (auto simp add: dispatch_def split: if_splits dest: submitGuess_not_newly_won)
  next
    case Tick
    with w assms(2) show ?thesis
      by (auto simp add: dispatch_def dest: tick_not_newly_won)
  next
    case (Mount resp)
    with w assms(2) show ?thesis
      by (auto simp add: dispatch_def split: if_splits dest: startNewGame_not_newly_won)
  next
    case (ClickPlayAgain resp)
    with w assms(2) show ?thesis
      by (auto simp add: dispatch_def split: if_splits dest: startNewGame_not_newly_won)
  next
    case WonTimeout
    with w assms(2) show ?thesis
      by (auto simp add: dispatch_def fireWonTimeout_def split: if_splits)
  qed (use w assms(2) in \<open>auto simp add: dispatch_def handleLetterClick_def
        handleBackspace_def split: if_splits\<close>)
qed

lemma step_schedules_only_by_enter:
  assumes "wonTimeouts s < wonTimeouts (step e s)"
  shows "gameStatus s = Active \<and>
    (\<exists>r cr. (e = KeyDown (Enter (Inr r) cr) \<or> e = ClickEnter (Inr r) cr) \<and> is_correct r)"
proof -
  from assms have w: "wonTimeouts s < wonTimeouts (dispatch e s)"
    by (simp add: step_def timerEffect_def)
  show ?thesis
  proof (cases e)
    case (KeyDown k)
    with w show ?thesis
      by (cases k)
         (auto simp add: dispatch_def handleGlobalKeyPress_def submitGuess_wonTimeouts
            split: if_splits sum.splits)
  next
    case (ClickEnter g c)
    with w show ?thesis
      by (auto simp add: dispatch_def submitGuess_wonTimeouts split: if_splits sum.splits)
  qed (use w in \<open>auto simp add: dispatch_def handleLetterClick_def handleBackspace_def
        fireWonTimeout_def split: if_splits\<close>)
qed

lemma enter_schedules_iff:
  assumes "gameStatus s = Active" and "\<not> loading s"
  shows "wonTimeouts s < wonTimeouts (step (KeyDown (Enter gresp cresp)) s) \<longleftrightarrow>
     length (completeGuess (hints s) (currentGuess s)) = WORD_LENGTH \<and>
     lettersOnly (completeGuess (hints s) (currentGuess s)) \<and> gameState s \<noteq> None \<and>
     (case gresp of Inl _ \<Rightarrow> False | Inr r \<Rightarrow> is_correct r)"
  by (simp add: step_enter [OF assms] timerEffect_def submitGuess_wonTimeouts)

lemma enter_attempts:
  assumes "gameStatus s = Active" and "\<not> loading s"
  shows "attempts (step (KeyDown (Enter gresp cresp)) s) = attempts (submitGuess s gresp cresp)"
  by (simp add: step_enter [OF assms] timerEffect_def)

lemma timeout_sets_won:
  "0 < wonTimeouts s \<Longrightarrow> gameStatus (step WonTimeout s) = Won"
  by (simp add: step_def dispatch_def timerEffect_def fireWonTimeout_def)

lemma winning_guess_schedules_won:
  assumes act: "gameStatus (run initial es) = Active"
    and g: "gameState (run initial es) = Some g"
    and len: "length (secret_word g) = WORD_LENGTH" and alpha: "lettersOnly (secret_word g)"
  shows "let s = run initial es; cg = completeGuess (hints s) (currentGuess s);
             s' = step (KeyDown (Enter (serverGuess (secret_word g) cg) cresp)) s in
           (wonTimeouts s < wonTimeouts s' \<longleftrightarrow>
              (\<exists>a. attempts s' = attempts s @ [a] \<and> list_all (\<lambda>l. l = Correct) (feedback a))) \<and>
           ((\<exists>a. attempts s' = attempts s @ [a] \<and> list_all (\<lambda>l. l = Correct) (feedback a)) \<longleftrightarrow>
              toUpperCase cg = toUpperCase (secret_word g))"
proof -
  define s where "s = run initial es"
  define cg where "cg = completeGuess (hints s) (currentGuess s)"
  have nl: "\<not> loading s"
    unfolding s_def by (rule reachable_not_loading)
  from act g have act: "gameStatus s = Active" and g: "gameState s = Some g"
    by (simp_all add: s_def)
  let ?s' = "step (KeyDown (Enter (serverGuess (secret_word g) cg) cresp)) s"
  have "(wonTimeouts s < wonTimeouts ?s' \<longleftrightarrow>
        (\<exists>a. attempts ?s' = attempts s @ [a] \<and> list_all (\<lambda>l. l = Correct) (feedback a))) \<and>
      ((\<exists>a. attempts ?s' = attempts s @ [a] \<and> list_all (\<lambda>l. l = Correct) (feedback a)) \<longleftrightarrow>
        toUpperCase cg = toUpperCase (secret_word g))"
  proof (cases "length cg = WORD_LENGTH \<and> lettersOnly cg")
    case True
    let ?fb = "evaluate (toUpperCase (secret_word g)) (toUpperCase cg)"
    from True have sg: "serverGuess (secret_word g) cg =
        Inr \<lparr>resp_guess = cg, resp_feedback = ?fb, is_correct = list_all (\<lambda>l. l = Correct) ?fb\<rparr>"
      by (simp add: serverGuess_valid)
    from True len have fb: "list_all (\<lambda>l. l = Correct) ?fb \<longleftrightarrow>
        toUpperCase cg = toUpperCase (secret_word g)"
      by (intro evaluate_all_correct) simp
    from True g have att: "attempts ?s' = attempts s @ [\<lparr>guess = cg, feedback = ?fb\<rparr>]"
      by (simp add: enter_attempts [OF act nl] submitGuess_attempts cg_def [symmetric] sg)
    from True g have "wonTimeouts s < wonTimeouts ?s' \<longleftrightarrow> list_all (\<lambda>l. l = Correct) ?fb"
      by (simp add: enter_schedules_iff [OF act nl] cg_def [symmetric] sg)
    with fb att show ?thesis by simp
  next
    case False
    then have att: "attempts ?s' = attempts s"
      by (auto simp add: enter_attempts [OF act nl] submitGuess_attempts cg_def [symmetric])
    from False have nowin: "\<not> wonTimeouts s < wonTimeouts ?s'"
      by (auto simp add: enter_schedules_iff [OF act nl] cg_def [symmetric])
    have "toUpperCase cg \<noteq> toUpperCase (secret_word g)"
    proof
      assume eq: "toUpperCase cg = toUpperCase (secret_word g)"
      then have "length (toUpperCase cg) = length (toUpperCase (secret_word g))"
        and "lettersOnly (toUpperCase cg) = lettersOnly (toUpperCase (secret_word g))"
        by simp_all
      with len alpha False show False by simp
    qed
    with att nowin show ?thesis by simp
  qed
  then show ?thesis
    unfolding Let_def s_def [symmetric] cg_def [symmetric] .
qed


subsection \<open>After the end of a game\<close>

lemma ended_enter_ignored:
  assumes "gameStatus s = Won \<or> gameStatus s = Lost"
    and "timerRef s = (gameStatus s = Active \<and> 0 < timeRemaining s)"
  shows "step (KeyDown k) s = s" and "step (ClickEnter gresp cresp) s = s"
proof -
  from assms(1) have na: "gameStatus s \<noteq> Active" by auto
  from na show "step (KeyDown k) s = s"
    by (simp add: step_def dispatch_def handleGlobalKeyPress_def rendered_fixed [OF assms(2)])
  from na show "step (ClickEnter gresp cresp) s = s"
    by (simp add: step_def dispatch_def rendered_fixed [OF assms(2)])
qed

lemma sample_server_responses:
  "serverGuess ''APPLE'' ''APPLE'' = Inr (allCorrect ''APPLE'')"
  "serverGuess ''APPLE'' ''MANGO'' =
     Inr \<lparr>resp_guess = ''MANGO'',
          resp_feedback = [Absent, Present, Absent, Absent, Absent], is_correct = False\<rparr>"
  by code_simp+


section \<open>The score\<close>

text \<open>
  C1. In every state that the session reaches, a winning guess records the score
  \<open>1.0 + 0.1 \<times> timeRemaining\<close>, computed in double arithmetic from the countdown that the
  session holds: it is the score of the completion request and the \<open>total_score\<close> of the
  game. With 45 seconds left the score is exactly 5.5. A guess that uses up the attempts
  without winning, and the expiry of the countdown, record the score 0.
\<close>

theorem C1_score_formula:
  "let s = run initial es; cg = completeGuess (hints s) (currentGuess s) in
     (gameState s = Some g \<and> length cg = WORD_LENGTH \<and> lettersOnly cg \<longrightarrow>
        (is_correct r \<longrightarrow>
           requests (submitGuess s (Inr r) cresp) =
             requests s @ [GuessReq (secret_word g) cg,
               CompleteGameReq (secret_word g) Won (length (attempts s) + 1)
                 (dadd d1_0 (dmul d0_1 (of_int (timeRemaining s))))] \<and>
           map_option total_score (gameState (submitGuess s (Inr r) cresp)) =
             Some (Some (dadd d1_0 (dmul d0_1 (of_int (timeRemaining s)))))) \<and>
        (\<not> is_correct r \<and> MAX_ATTEMPTS \<le> length (attempts s) + 1 \<longrightarrow>
           gameStatus (submitGuess s (Inr r) cresp) = Lost \<and>
           requests (submitGuess s (Inr r) cresp) =
             requests s @ [GuessReq (secret_word g) cg,
               CompleteGameReq (secret_word g) Lost (length (attempts s) + 1) 0])) \<and>
     (timerRef s \<and> timeRemaining s \<le> 1 \<and> secretOf s = Some w \<longrightarrow>
        gameStatus (tick s) = Lost \<and>
        requests (tick s) = requests s @ [CompleteGameReq w Lost (length (attempts s)) 0]) \<and>
     dadd d1_0 (dmul d0_1 45) = 11 / 2"
proof -
  define s where "s = run initial es"
  define cg where "cg = completeGuess (hints s) (currentGuess s)"
  have t0: "0 \<le> timeRemaining s"
    unfolding s_def by (rule reachable_timeRemaining_nonneg)
  have score: "totalScore (timeRemaining s) = dadd d1_0 (dmul d0_1 (of_int (timeRemaining s)))"
    using t0 by (simp add: totalScore_def timeBonus_def timeRemainingSeconds_def baseScore_def
        dmul_def mult.commute)
  have win: "requests (submitGuess s (Inr r) cresp) =
             requests s @ [GuessReq (secret_word g) cg,
               CompleteGameReq (secret_word g) Won (length (attempts s) + 1)
                 (dadd d1_0 (dmul d0_1 (of_int (timeRemaining s))))] \<and>
           map_option total_score (gameState (submitGuess s (Inr r) cresp)) =
             Some (Some (dadd d1_0 (dmul d0_1 (of_int (timeRemaining s)))))"
    if "gameState s = Some g" "length cg = WORD_LENGTH" "lettersOnly cg" "is_correct r"
    using that score unfolding cg_def by (simp add: submitGuess_won)
  have loss: "gameStatus (submitGuess s (Inr r) cresp) = Lost \<and>
           requests (submitGuess s (Inr r) cresp) =
             requests s @ [GuessReq (secret_word g) cg,
               CompleteGameReq (secret_word g) Lost (length (attempts s) + 1) 0]"
    if "gameState s = Some g" "length cg = WORD_LENGTH" "lettersOnly cg" "\<not> is_correct r"
      "MAX_ATTEMPTS \<le> length (attempts s) + 1"
    using that unfolding cg_def by (simp add: submitGuess_lost d0_0_eq)
  have expiry: "gameStatus (tick s) = Lost \<and>
        requests (tick s) = requests s @ [CompleteGameReq w Lost (length (attempts s)) 0]"
    if "timerRef s" "timeRemaining s \<le> 1" "secretOf s = Some w"
    using that by (simp add: tick_def handleTimeUp_def d0_0_eq)
  have "dadd d1_0 (dmul d0_1 45) = 11 / 2"
    by code_simp
  with win loss expiry show ?thesis
    unfolding Let_def s_def [symmetric] cg_def [symmetric] by blast
qed


text \<open>
  The three cases at sample sessions: a win with 45 seconds left, a sixth guess that
  misses, and the tick that ends the countdown.
\<close>

theorem C1_score_formula_witness:
  "(let s = run initial (Mount (Inr ''APPLE'') # replicate 135 Tick @ typed ''APPLE'');
        cg = completeGuess (hints s) (currentGuess s) in
      (gameState s = Some (newGame ''APPLE'') \<and> length cg = WORD_LENGTH \<and> lettersOnly cg) \<and>
      is_correct (allCorrect ''APPLE'') \<and>
      requests (submitGuess s (Inr (allCorrect ''APPLE'')) (Inl [])) =
        [StartGameReq 180, GuessReq ''APPLE'' ''APPLE'', CompleteGameReq ''APPLE'' Won 1 (11 / 2)]) \<and>
   (let s = run initial (Mount (Inr ''MANGO'') # concat (replicate 5 (missed ''APPLE'')) @ typed ''APPLE'');
        cg = completeGuess (hints s) (currentGuess s) in
      (gameState s = Some (newGame ''MANGO'') \<and> length cg = WORD_LENGTH \<and> lettersOnly cg) \<and>
      (\<not> is_correct (allAbsent ''APPLE'') \<and> MAX_ATTEMPTS \<le> length (attempts s) + 1) \<and>
      gameStatus (submitGuess s (Inr (allAbsent ''APPLE'')) (Inl [])) = Lost \<and>
      last (requests (submitGuess s (Inr (allAbsent ''APPLE'')) (Inl []))) =
        CompleteGameReq ''MANGO'' Lost 6 0) \<and>
   (let s = run initial (Mount (Inr ''MANGO'') # replicate 179 Tick) in
      (timerRef s \<and> timeRemaining s \<le> 1 \<and> secretOf s = Some ''MANGO'') \<and>
      gameStatus (tick s) = Lost \<and>
      requests (tick s) = [StartGameReq 180, CompleteGameReq ''MANGO'' Lost 0 0])"
proof -
  let ?e1 = "Mount (Inr ''APPLE'') # replicate 135 Tick @ typed ''APPLE''"
  let ?e2 = "Mount (Inr ''MANGO'') # concat (replicate 5 (missed ''APPLE'')) @ typed ''APPLE''"
  let ?e3 = "Mount (Inr ''MANGO'') # replicate 179 Tick"
  have h1: "gameState (run initial ?e1) = Some (newGame ''APPLE'') \<and>
      length (completeGuess (hints (run initial ?e1)) (currentGuess (run initial ?e1))) = WORD_LENGTH \<and>
      lettersOnly (completeGuess (hints (run initial ?e1)) (currentGuess (run initial ?e1)))"
    by code_simp
  have v1: "timeRemaining (run initial ?e1) = 45" "attempts (run initial ?e1) = []"
    "requests (run initial ?e1) = [StartGameReq 180]"
    "completeGuess (hints (run initial ?e1)) (currentGuess (run initial ?e1)) = ''APPLE''"
    by code_simp+
  have c1: "is_correct (allCorrect ''APPLE'')" by (simp add: allCorrect_def)
  have sc: "dadd d1_0 (dmul d0_1 45) = 11 / 2" by code_simp
  have w1: "requests (submitGuess (run initial ?e1) (Inr (allCorrect ''APPLE'')) (Inl [])) =
        [StartGameReq 180, GuessReq ''APPLE'' ''APPLE'', CompleteGameReq ''APPLE'' Won 1 (11 / 2)]"
    using C1_score_formula [of ?e1 "newGame ''APPLE''" "allCorrect ''APPLE''" "Inl []" "[]"] h1 c1
    unfolding Let_def v1 by (simp add: sc newGame_def)
  have h2: "gameState (run initial ?e2) = Some (newGame ''MANGO'') \<and>
      length (completeGuess (hints (run initial ?e2)) (currentGuess (run initial ?e2))) = WORD_LENGTH \<and>
      lettersOnly (completeGuess (hints (run initial ?e2)) (currentGuess (run initial ?e2)))"
    by code_simp
  have v2: "length (attempts (run initial ?e2)) = 5" by code_simp
  have n2: "\<not> is_correct (allAbsent ''APPLE'')" by (simp add: allAbsent_def)
  have w2: "gameStatus (submitGuess (run initial ?e2) (Inr (allAbsent ''APPLE'')) (Inl [])) = Lost \<and>
      last (requests (submitGuess (run initial ?e2) (Inr (allAbsent ''APPLE'')) (Inl []))) =
        CompleteGameReq ''MANGO'' Lost 6 0"
    using C1_score_formula [of ?e2 "newGame ''MANGO''" "allAbsent ''APPLE''" "Inl []" "[]"] h2 n2
    unfolding Let_def v2 by (simp add: MAX_ATTEMPTS_def newGame_def)
  have h3: "timerRef (run initial ?e3) \<and> timeRemaining (run initial ?e3) \<le> 1 \<and>
      secretOf (run initial ?e3) = Some ''MANGO''"
    by code_simp
  have v3: "attempts (run initial ?e3) = []" "requests (run initial ?e3) = [StartGameReq 180]"
    by code_simp+
  have w3: "gameStatus (tick (run initial ?e3)) = Lost \<and>
      requests (tick (run initial ?e3)) = [StartGameReq 180, CompleteGameReq ''MANGO'' Lost 0 0]"
    using C1_score_formula [of ?e3 "newGame ''MANGO''" "allAbsent ''APPLE''" "Inl []" "''MANGO''"] h3
    unfolding Let_def v3 by simp
  from h1 c1 w1 h2 v2 n2 w2 h3 w3 show ?thesis
    unfolding Let_def by (simp add: MAX_ATTEMPTS_def)
qed

text \<open>
  C10. Whatever the countdown holds when a guess wins, also zero or a negative number, the
  time bonus is computed from \<open>max(0, timeRemaining)\<close> and is not negative, and the score
  that the winning guess records is at least the base score 1.0.
\<close>

theorem C10_winning_score_at_least_base:
  "let tb = dmul (of_int (max 0 (timeRemaining s))) d0_1; sc = dadd d1_0 tb;
       cg = completeGuess (hints s) (currentGuess s); s' = submitGuess s (Inr r) cresp in
     0 \<le> tb \<and> d1_0 \<le> sc \<and>
     (gameState s = Some g \<and> length cg = WORD_LENGTH \<and> lettersOnly cg \<and> is_correct r \<longrightarrow>
        last (requests s') = CompleteGameReq (secret_word g) Won (length (attempts s) + 1) sc \<and>
        map_option total_score (gameState s') = Some (Some sc) \<and>
        map_option time_bonus (gameState s') = Some (Some tb))"
proof -
  have tb: "dmul (of_int (max 0 (timeRemaining s))) d0_1 = timeBonus (timeRemaining s)"
    by (simp add: timeBonus_def timeRemainingSeconds_def)
  have sc: "dadd d1_0 (timeBonus (timeRemaining s)) = totalScore (timeRemaining s)"
    by (simp add: totalScore_def baseScore_def)
  show ?thesis
    unfolding Let_def tb sc
    using timeBonus_nonneg [of "timeRemaining s"] totalScore_ge_base [of "timeRemaining s"]
    by (simp add: submitGuess_won)
qed

text \<open>A winning guess in a state whose countdown holds \<open>-7\<close> records the score 1.\<close>

theorem C10_winning_score_at_least_base_witness:
  "let s = initial\<lparr>gameState := Some (newGame ''APPLE''), currentGuess := ''APPLE'',
                    timeRemaining := - 7\<rparr>;
       cg = completeGuess (hints s) (currentGuess s);
       s' = submitGuess s (Inr (allCorrect ''APPLE'')) (Inl []) in
     (gameState s = Some (newGame ''APPLE'') \<and> length cg = WORD_LENGTH \<and> lettersOnly cg \<and>
      is_correct (allCorrect ''APPLE'')) \<and>
     last (requests s') = CompleteGameReq ''APPLE'' Won 1 1 \<and>
     map_option total_score (gameState s') = Some (Some 1) \<and>
     map_option time_bonus (gameState s') = Some (Some 0)"
proof -
  let ?s = "initial\<lparr>gameState := Some (newGame ''APPLE''), currentGuess := ''APPLE'',
                    timeRemaining := - 7\<rparr>"
  have h: "gameState ?s = Some (newGame ''APPLE'') \<and>
      length (completeGuess (hints ?s) (currentGuess ?s)) = WORD_LENGTH \<and>
      lettersOnly (completeGuess (hints ?s) (currentGuess ?s)) \<and> is_correct (allCorrect ''APPLE'')"
    by code_simp
  have v: "dmul (of_int (max 0 (timeRemaining ?s))) d0_1 = 0" "dadd d1_0 0 = 1"
    "length (attempts ?s) + 1 = 1" "secret_word (newGame ''APPLE'') = ''APPLE''"
    by code_simp+
  from C10_winning_score_at_least_base [of ?s "allCorrect ''APPLE''" "Inl []" "newGame ''APPLE''"] h
  show ?thesis
    unfolding Let_def v by blast
qed

section \<open>The countdown\<close>

text \<open>
  C9. In every state that the session reaches the countdown is not negative. While the
  game is active with time left, a tick lowers the countdown by exactly 1; the tick that
  brings it to 0 sets the status to lost and sends the completion request with status
  lost, the number of attempts made so far and the score 0. When the status is not active
  no interval is running and a tick leaves the state as it is; after the teardown of the
  component no interval is running either.
\<close>

theorem C9_countdown:
  "let s = run initial es in
     0 \<le> timeRemaining s \<and>
     (gameStatus s = Active \<and> 0 < timeRemaining s \<longrightarrow>
        timeRemaining (step Tick s) = timeRemaining s - 1 \<and>
        (1 < timeRemaining s \<longrightarrow> step Tick s = s\<lparr>timeRemaining := timeRemaining s - 1\<rparr>) \<and>
        (timeRemaining s = 1 \<longrightarrow>
           gameStatus (step Tick s) = Lost \<and>
           (\<forall>w. secretOf s = Some w \<longrightarrow>
              requests (step Tick s) =
                requests s @ [CompleteGameReq w Lost (length (attempts s)) 0]))) \<and>
     (gameStatus s \<noteq> Active \<longrightarrow> \<not> timerRef s \<and> step Tick s = s) \<and>
     \<not> timerRef (unmount s) \<and> tick (unmount s) = unmount s"
proof -
  define s where "s = run initial es"
  have r: "timerRef s = (gameStatus s = Active \<and> 0 < timeRemaining s)"
    unfolding s_def by (rule reachable_rendered)
  have t0: "0 \<le> timeRemaining s"
    unfolding s_def by (rule reachable_timeRemaining_nonneg)
  have dec: "step Tick s = s\<lparr>timeRemaining := timeRemaining s - 1\<rparr>"
    if "gameStatus s = Active" "1 < timeRemaining s"
    using that r by (simp add: step_def dispatch_def tick_def timerEffect_def)
  have up: "timeRemaining (step Tick s) = 0 \<and> gameStatus (step Tick s) = Lost \<and>
      (\<forall>w. secretOf s = Some w \<longrightarrow>
         requests (step Tick s) = requests s @ [CompleteGameReq w Lost (length (attempts s)) 0])"
    if "gameStatus s = Active" "timeRemaining s = 1"
    using that r
    by (cases "secretOf s")
       (simp_all add: step_def dispatch_def tick_def timerEffect_def
          handleTimeUp_def d0_0_eq Let_def)
  have one: "timeRemaining (step Tick s) = timeRemaining s - 1"
    if "gameStatus s = Active" "0 < timeRemaining s"
  proof (cases "timeRemaining s = 1")
    case True
    with up that show ?thesis by simp
  next
    case False
    with that have "1 < timeRemaining s" by simp
    with dec that show ?thesis by simp
  qed
  have off: "\<not> timerRef s \<and> step Tick s = s" if "gameStatus s \<noteq> Active"
    using that r by (simp add: step_def dispatch_def tick_def rendered_fixed [OF r])
  have down: "\<not> timerRef (unmount s) \<and> tick (unmount s) = unmount s"
    by (simp add: unmount_def tick_def)
  from t0 dec up one off down show ?thesis
    unfolding Let_def s_def [symmetric] by blast
qed


text \<open>
  A fresh game, a game with one second left, and a game whose time has run out.
\<close>

theorem C9_countdown_witness:
  "(let s = run initial [Mount (Inr ''MANGO'')] in
      (gameStatus s = Active \<and> 0 < timeRemaining s \<and> 1 < timeRemaining s) \<and>
      timeRemaining (step Tick s) = 179) \<and>
   (let s = run initial (Mount (Inr ''MANGO'') # replicate 179 Tick) in
      (gameStatus s = Active \<and> 0 < timeRemaining s \<and> timeRemaining s = 1 \<and>
       secretOf s = Some ''MANGO'') \<and>
      timeRemaining (step Tick s) = 0 \<and> gameStatus (step Tick s) = Lost \<and>
      requests (step Tick s) = [StartGameReq 180, CompleteGameReq ''MANGO'' Lost 0 0]) \<and>
   (let s = run initial (Mount (Inr ''MANGO'') # replicate 180 Tick) in
      gameStatus s \<noteq> Active \<and> \<not> timerRef s \<and> step Tick s = s)"
proof -
  let ?a = "run initial [Mount (Inr ''MANGO'')]"
  let ?c = "run initial (Mount (Inr ''MANGO'') # replicate 179 Tick)"
  let ?d = "run initial (Mount (Inr ''MANGO'') # replicate 180 Tick)"
  have ha: "gameStatus ?a = Active \<and> 0 < timeRemaining ?a \<and> 1 < timeRemaining ?a"
    and va: "timeRemaining ?a = 180"
    by code_simp+
  have wa: "timeRemaining (step Tick ?a) = 179"
    using C9_countdown [of "[Mount (Inr ''MANGO'')]"] ha unfolding Let_def va by simp
  have hc: "gameStatus ?c = Active \<and> 0 < timeRemaining ?c \<and> timeRemaining ?c = 1 \<and>
      secretOf ?c = Some ''MANGO''"
    and vc: "requests ?c = [StartGameReq 180]" "attempts ?c = []"
    by code_simp+
  have wc: "timeRemaining (step Tick ?c) = 0 \<and> gameStatus (step Tick ?c) = Lost \<and>
      requests (step Tick ?c) = [StartGameReq 180, CompleteGameReq ''MANGO'' Lost 0 0]"
    using C9_countdown [of "Mount (Inr ''MANGO'') # replicate 179 Tick"] hc
    unfolding Let_def vc by simp
  have hd: "gameStatus ?d \<noteq> Active"
    by code_simp
  have wd: "\<not> timerRef ?d \<and> step Tick ?d = ?d"
    using C9_countdown [of "Mount (Inr ''MANGO'') # replicate 180 Tick"] hd
    unfolding Let_def by blast
  from ha wa hc wc hd wd show ?thesis
    unfolding Let_def by blast
qed

section \<open>Coins\<close>

text \<open>
  C6. In a session with a game whose coin balance is below 10, a hint request is refused
  for lack of coins: the handler shows the coin modal and does nothing else. The balance,
  the hints and the attempts stay as they are and no request is sent, so a balance that
  is not negative stays so.
\<close>

theorem C6_hint_needs_ten_coins:
  "secretOf s = Some w \<and> coins s < 10 \<longrightarrow>
     handleHint s resp = s\<lparr>showCoinModal := True\<rparr> \<and>
     coins (handleHint s resp) = coins s \<and> hints (handleHint s resp) = hints s \<and>
     attempts (handleHint s resp) = attempts s \<and> requests (handleHint s resp) = requests s \<and>
     (0 \<le> coins s \<longrightarrow> 0 \<le> coins (handleHint s resp))"
  by (simp add: handleHint_def)

text \<open>A fresh game with a balance of 5 coins.\<close>

theorem C6_hint_needs_ten_coins_witness:
  "let s = run initial [Mount (Inr ''MANGO''), CoinsFetched 5];
       resp = Inr \<lparr>hint_position = 0, hint_letter = ''M'', remaining_coins = - 5\<rparr> in
     (secretOf s = Some ''MANGO'' \<and> coins s < 10 \<and> 0 \<le> coins s) \<and> coins s = 5 \<and>
     handleHint s resp = s\<lparr>showCoinModal := True\<rparr> \<and>
     coins (handleHint s resp) = 5 \<and> hints (handleHint s resp) = [] \<and>
     attempts (handleHint s resp) = [] \<and> requests (handleHint s resp) = [StartGameReq 180]"
proof -
  let ?s = "run initial [Mount (Inr ''MANGO''), CoinsFetched 5]"
  let ?r = "Inr \<lparr>hint_position = 0, hint_letter = ''M'', remaining_coins = - 5\<rparr>"
  have h: "secretOf ?s = Some ''MANGO'' \<and> coins ?s < 10 \<and> 0 \<le> coins ?s"
    by code_simp
  have v: "coins ?s = 5" "hints ?s = []" "attempts ?s = []" "requests ?s = [StartGameReq 180]"
    by code_simp+
  from C6_hint_needs_ten_coins [of ?s "''MANGO''" ?r] h
  have "handleHint ?s ?r = ?s\<lparr>showCoinModal := True\<rparr> \<and>
     coins (handleHint ?s ?r) = coins ?s \<and> hints (handleHint ?s ?r) = hints ?s \<and>
     attempts (handleHint ?s ?r) = attempts ?s \<and> requests (handleHint ?s ?r) = requests ?s"
    by blast
  with h v show ?thesis
    unfolding Let_def by simp
qed



section \<open>Hints\<close>

text \<open>
  C5. The claim is that a hint request is refused because all positions are revealed
  exactly when each of the five positions is correct in some attempt or has a hint.
  \<open>handleHint\<close> counts a position twice when it is both correct and hinted, which it is
  as soon as a guess is made after a hint, since the hint letter is part of the guess.
  After hints at positions 0, 1 and 2 and one guess that the server marks correct at
  these positions, positions 3 and 4 are neither correct nor hinted, 70 coins are left,
  and the next hint request is refused with the message that all positions are revealed.
\<close>

theorem C5_hint_refused_with_unrevealed_positions:
  "let s = run initial
         ([Mount (Inr ''APPLE''),
           ClickHint (Inr \<lparr>hint_position = 0, hint_letter = ''A'', remaining_coins = 90\<rparr>),
           ClickHint (Inr \<lparr>hint_position = 1, hint_letter = ''P'', remaining_coins = 80\<rparr>),
           ClickHint (Inr \<lparr>hint_position = 2, hint_letter = ''P'', remaining_coins = 70\<rparr>)] @
          typed ''XY'' @
          [KeyDown (Enter (Inr \<lparr>resp_guess = ''APPXY'',
                                 resp_feedback = [Correct, Correct, Correct, Absent, Absent],
                                 is_correct = False\<rparr>) (Inl []))]);
       resp = Inr \<lparr>hint_position = 3, hint_letter = ''L'', remaining_coins = 60\<rparr> in
     gameStatus s = Active \<and> secretOf s = Some ''APPLE'' \<and> coins s = 70 \<and>
     map position (hints s) = [0, 1, 2] \<and>
     map feedback (attempts s) = [[Correct, Correct, Correct, Absent, Absent]] \<and>
     \<not> isAlreadyCorrect (attempts s) 3 \<and> \<not> hasHint (hints s) 3 \<and>
     \<not> isAlreadyCorrect (attempts s) 4 \<and> \<not> hasHint (hints s) 4 \<and>
     revealedPositions (attempts s) (hints s) = [0, 0, 1, 1, 2, 2] \<and>
     handleHint s resp = s\<lparr>error := ''All positions are already revealed!''\<rparr> \<and>
     step (ClickHint resp) s = s\<lparr>error := ''All positions are already revealed!''\<rparr>"
  by code_simp


section \<open>The keyboard\<close>

text \<open>
  C8. For every list of attempts and every letter, the status that \<open>getLetterStatus\<close>
  computes is the one of the specification: correct when the letter is marked correct at
  some position of some attempt, else present when it is marked present somewhere, else
  absent when it occurs in some guess, else unused. A letter that is correct stays
  correct when further attempts are appended.
\<close>

theorem C8_keyboard_status:
  "getLetterStatus as c = keyboardStatus as c \<and>
   (getLetterStatus as c = KeyCorrect \<longrightarrow> getLetterStatus (as @ bs) c = KeyCorrect)"
proof -
  have "keyboardStatus (as @ bs) c = KeyCorrect" if "keyboardStatus as c = KeyCorrect"
  proof -
    from that have "markedWith Correct as c"
      by (simp add: keyboardStatus_def split: if_splits)
    then show ?thesis by (simp add: keyboardStatus_def markedWith_append)
  qed
  then show ?thesis by (simp add: getLetterStatus_keyboardStatus)
qed


text \<open>The attempts ELVEL and LOVER against the secret LEVEL.\<close>

theorem C8_keyboard_status_witness:
  "let as = [\<lparr>guess = ''ELVEL'', feedback = [Present, Present, Correct, Correct, Correct]\<rparr>];
       bs = [\<lparr>guess = ''LOVER'', feedback = [Correct, Absent, Correct, Correct, Absent]\<rparr>] in
     getLetterStatus as CHR ''V'' = KeyCorrect \<and> keyboardStatus as CHR ''V'' = KeyCorrect \<and>
     getLetterStatus (as @ bs) CHR ''V'' = KeyCorrect \<and>
     getLetterStatus as CHR ''L'' = KeyCorrect \<and> getLetterStatus as CHR ''E'' = KeyCorrect \<and>
     getLetterStatus (as @ bs) CHR ''O'' = KeyAbsent \<and>
     keyboardStatus (as @ bs) CHR ''O'' = KeyAbsent \<and>
     getLetterStatus (as @ bs) CHR ''Z'' = KeyUnused"
proof -
  let ?as = "[\<lparr>guess = ''ELVEL'', feedback = [Present, Present, Correct, Correct, Correct]\<rparr>]"
  let ?bs = "[\<lparr>guess = ''LOVER'', feedback = [Correct, Absent, Correct, Correct, Absent]\<rparr>]"
  have v: "getLetterStatus ?as CHR ''V'' = KeyCorrect"
    "getLetterStatus ?as CHR ''L'' = KeyCorrect" "getLetterStatus ?as CHR ''E'' = KeyCorrect"
    "getLetterStatus (?as @ ?bs) CHR ''O'' = KeyAbsent"
    "getLetterStatus (?as @ ?bs) CHR ''Z'' = KeyUnused"
    by code_simp+
  from C8_keyboard_status [of ?as "CHR ''V''" ?bs] v(1)
  have w: "keyboardStatus ?as CHR ''V'' = KeyCorrect"
    "getLetterStatus (?as @ ?bs) CHR ''V'' = KeyCorrect"
    by simp_all
  from C8_keyboard_status [of "?as @ ?bs" "CHR ''O''" "[]"] v(4)
  have o: "keyboardStatus (?as @ ?bs) CHR ''O'' = KeyAbsent"
    by simp
  from v w o show ?thesis
    unfolding Let_def by blast
qed

section \<open>Building the guess\<close>

text \<open>
  C3. For all hints and all typed letters, the guess that \<open>submitGuess\<close> builds is the
  interleaving: position by position, the hint letter at a hinted position and the next
  typed letter at any other. When every hint letter is one character, the hint positions
  are distinct and there is a typed letter for every position without a hint, the guess
  has five characters, each hinted position carries its hint letter, and the positions
  without a hint carry the typed letters in order. When the guess does not have five
  characters, or has five that are not all letters, \<open>submitGuess\<close> only sets the error
  message: no request is sent to the server and no attempt is appended.
\<close>

theorem C3_complete_guess:
  "completeGuess hs cg = interleave hs cg \<and>
   ((\<forall>h \<in> set hs. length (letter h) = 1) \<and> distinct (map position hs) \<and>
    typedBefore hs WORD_LENGTH \<le> length cg \<longrightarrow>
      length (completeGuess hs cg) = WORD_LENGTH \<and>
      (\<forall>h \<in> set hs. position h < WORD_LENGTH \<longrightarrow>
         [completeGuess hs cg ! position h] = letter h) \<and>
      (\<forall>i < WORD_LENGTH. \<not> hasHint hs i \<longrightarrow>
         completeGuess hs cg ! i = cg ! typedBefore hs i)) \<and>
   (length (completeGuess (hints s) (currentGuess s)) \<noteq> WORD_LENGTH \<longrightarrow>
      submitGuess s gresp cresp = s\<lparr>error := ''Word must be 5 letters''\<rparr> \<and>
      attempts (submitGuess s gresp cresp) = attempts s \<and>
      requests (submitGuess s gresp cresp) = requests s) \<and>
   (length (completeGuess (hints s) (currentGuess s)) = WORD_LENGTH \<and>
    \<not> lettersOnly (completeGuess (hints s) (currentGuess s)) \<longrightarrow>
      submitGuess s gresp cresp = s\<lparr>error := ''Only letters allowed''\<rparr> \<and>
      attempts (submitGuess s gresp cresp) = attempts s \<and>
      requests (submitGuess s gresp cresp) = requests s)"
proof -
  have aligned: "length (completeGuess hs cg) = WORD_LENGTH \<and>
      (\<forall>h \<in> set hs. position h < WORD_LENGTH \<longrightarrow>
         [completeGuess hs cg ! position h] = letter h) \<and>
      (\<forall>i < WORD_LENGTH. \<not> hasHint hs i \<longrightarrow>
         completeGuess hs cg ! i = cg ! typedBefore hs i)"
    if one: "\<forall>h \<in> set hs. length (letter h) = 1" and d: "distinct (map position hs)"
      and enough: "typedBefore hs WORD_LENGTH \<le> length cg"
  proof -
    note eq = completeGuess_interleave [of hs cg, unfolded interleave_letters [OF one enough]]
    have "[completeGuess hs cg ! position h] = letter h"
      if h: "h \<in> set hs" and p: "position h < WORD_LENGTH" for h
    proof -
      from h have hh: "hasHint hs (position h)" by (auto simp add: hasHint_def list_ex_iff)
      from one h have "length (letter h) = 1" by simp
      then have "[hd (letter h)] = letter h" by (cases "letter h") simp_all
      with p hh show ?thesis
        by (simp add: eq hintLetter_distinct [OF d h])
    qed
    then show ?thesis by (simp add: eq)
  qed
  from aligned submitGuess_rejected [of s gresp cresp] show ?thesis
    by (simp add: completeGuess_interleave)
qed

text \<open>
  Hints at positions 2 and 0 with the typed letters PLE, with the typed letters PL, and
  with a digit among the typed characters.
\<close>

theorem C3_complete_guess_witness:
  "let hs = [\<lparr>position = 2, letter = ''P''\<rparr>, \<lparr>position = 0, letter = ''A''\<rparr>];
       short = initial\<lparr>hints := hs, currentGuess := ''PL''\<rparr>;
       digit = initial\<lparr>hints := hs, currentGuess := ''P1E''\<rparr> in
     ((\<forall>h \<in> set hs. length (letter h) = 1) \<and> distinct (map position hs) \<and>
      typedBefore hs WORD_LENGTH \<le> length ''PLE'') \<and>
     completeGuess hs ''PLE'' = ''APPLE'' \<and> interleave hs ''PLE'' = ''APPLE'' \<and>
     length (completeGuess hs ''PLE'') = WORD_LENGTH \<and>
     (\<forall>h \<in> set hs. position h < WORD_LENGTH \<longrightarrow>
        [completeGuess hs ''PLE'' ! position h] = letter h) \<and>
     (\<forall>i < WORD_LENGTH. \<not> hasHint hs i \<longrightarrow>
        completeGuess hs ''PLE'' ! i = ''PLE'' ! typedBefore hs i) \<and>
     completeGuess (hints short) (currentGuess short) = ''APPL'' \<and>
     length (completeGuess (hints short) (currentGuess short)) \<noteq> WORD_LENGTH \<and>
     submitGuess short (Inr (allCorrect ''APPLE'')) (Inl []) =
       short\<lparr>error := ''Word must be 5 letters''\<rparr> \<and>
     completeGuess (hints digit) (currentGuess digit) = ''APP1E'' \<and>
     (length (completeGuess (hints digit) (currentGuess digit)) = WORD_LENGTH \<and>
      \<not> lettersOnly (completeGuess (hints digit) (currentGuess digit))) \<and>
     submitGuess digit (Inr (allCorrect ''APPLE'')) (Inl []) =
       digit\<lparr>error := ''Only letters allowed''\<rparr>"
proof -
  let ?hs = "[\<lparr>position = 2, letter = ''P''\<rparr>, \<lparr>position = 0, letter = ''A''\<rparr>]"
  let ?short = "initial\<lparr>hints := ?hs, currentGuess := ''PL''\<rparr>"
  let ?digit = "initial\<lparr>hints := ?hs, currentGuess := ''P1E''\<rparr>"
  have h: "(\<forall>h \<in> set ?hs. length (letter h) = 1) \<and> distinct (map position ?hs) \<and>
      typedBefore ?hs WORD_LENGTH \<le> length ''PLE''"
    by code_simp
  have v: "completeGuess ?hs ''PLE'' = ''APPLE''"
    "completeGuess (hints ?short) (currentGuess ?short) = ''APPL''"
    "completeGuess (hints ?digit) (currentGuess ?digit) = ''APP1E''"
    by code_simp+
  have hshort: "length (completeGuess (hints ?short) (currentGuess ?short)) \<noteq> WORD_LENGTH"
    by code_simp
  have hdigit: "length (completeGuess (hints ?digit) (currentGuess ?digit)) = WORD_LENGTH \<and>
      \<not> lettersOnly (completeGuess (hints ?digit) (currentGuess ?digit))"
    by code_simp
  note a = C3_complete_guess [of ?hs "''PLE''" ?short "Inr (allCorrect ''APPLE'')" "Inl []"]
  note b = C3_complete_guess [of ?hs "''PLE''" ?digit "Inr (allCorrect ''APPLE'')" "Inl []"]
  from a v(1) have i: "interleave ?hs ''PLE'' = ''APPLE''"
    by (simp only:)
  from a h have al: "length (completeGuess ?hs ''PLE'') = WORD_LENGTH \<and>
     (\<forall>h \<in> set ?hs. position h < WORD_LENGTH \<longrightarrow>
        [completeGuess ?hs ''PLE'' ! position h] = letter h) \<and>
     (\<forall>i < WORD_LENGTH. \<not> hasHint ?hs i \<longrightarrow>
        completeGuess ?hs ''PLE'' ! i = ''PLE'' ! typedBefore ?hs i)"
    by blast
  from a hshort have r1: "submitGuess ?short (Inr (allCorrect ''APPLE'')) (Inl []) =
       ?short\<lparr>error := ''Word must be 5 letters''\<rparr>"
    by blast
  from b hdigit have r2: "submitGuess ?digit (Inr (allCorrect ''APPLE'')) (Inl []) =
       ?digit\<lparr>error := ''Only letters allowed''\<rparr>"
    by blast
  from h v i al hshort r1 hdigit r2 show ?thesis
    unfolding Let_def by blast
qed

section \<open>Winning and losing\<close>


text \<open>
  C4. The claim is that there are never more than 6 attempts, that no guess is accepted
  after the sixth, and that the statuses won and lost are final. After five misses and a
  sixth guess that wins, the session is still active for the second before the timeout
  fires. A guess submitted then is accepted as a seventh attempt; as it does not win and
  the budget is used up, the status becomes lost and a second completion request is
  sent; when the timeout fires, the status lost becomes won.
\<close>

theorem C4_seventh_attempt_and_lost_then_won:
  "let s6 = run initial (Mount (Inr ''MANGO'') # concat (replicate 5 (missed ''APPLE'')) @
                          typed ''MANGO'' @
                          [KeyDown (Enter (Inr (allCorrect ''MANGO'')) (Inl []))]);
       s7 = run s6 (missed ''APPLE'');
       s8 = step WonTimeout s7 in
     gameStatus s6 = Active \<and> \<not> loading s6 \<and> wonTimeouts s6 = 1 \<and>
     length (attempts s6) = MAX_ATTEMPTS \<and>
     length (attempts s7) = 7 \<and> MAX_ATTEMPTS < length (attempts s7) \<and>
     gameStatus s7 = Lost \<and>
     drop 7 (requests s7) =
       [CompleteGameReq ''MANGO'' Won 6 19, GuessReq ''MANGO'' ''APPLE'',
        CompleteGameReq ''MANGO'' Lost 7 0] \<and>
     gameStatus s8 = Won \<and> length (attempts s8) = 7"
  by code_simp

end
